theory Spec2Isabelle
  imports Main "HOL-Library.Sublist" "HOL-Library.List_Lexorder" "HOL-Library.Char_ord"
begin

section \<open>JavaScript strings and falsy values\<close>

text \<open>
  Strings are lists of characters. A field that the source reads with
  \<^verbatim>\<open>x.f || ''\<close> is a plain string here, the empty string standing for
  every falsy value (absent, null, empty). A value the source compares with
  \<^verbatim>\<open>!==\<close> or tests with \<^verbatim>\<open>!\<close> while it may be null is a
  \<open>string option\<close>.
\<close>

definition is_space :: "char \<Rightarrow> bool" where
  "is_space c = (c \<in> set [CHR 0x09, CHR 0x0A, CHR 0x0B, CHR 0x0C, CHR 0x0D, CHR 0x20, CHR 0xA0])"

text \<open>\<^verbatim>\<open>String.prototype.trim\<close>.\<close>

definition trim :: "string \<Rightarrow> string" where
  "trim s = rev (dropWhile is_space (rev (dropWhile is_space s)))"

text \<open>
  \<^verbatim>\<open>s.split(/\s+/)\<close>: the pieces between maximal runs of white space; a run at
  either end leaves an empty piece there, and a string without white space is its own
  single piece.
\<close>

function split_ws :: "string \<Rightarrow> string list" where
  "split_ws s =
     (case dropWhile (\<lambda>c. \<not> is_space c) s of
        [] \<Rightarrow> [s]
      | r # rs \<Rightarrow> takeWhile (\<lambda>c. \<not> is_space c) s # split_ws (dropWhile is_space rs))"
  by pat_completeness auto
termination
proof (relation "measure length")
  show "wf (measure length)" by simp
next
  fix s :: string and r rs
  assume a: "dropWhile (\<lambda>c. \<not> is_space c) s = r # rs"
  have "length (dropWhile is_space rs) \<le> length rs"
    by (rule length_dropWhile_le)
  also have "length rs < length (r # rs)" by simp
  also have "length (r # rs) \<le> length s"
    using length_dropWhile_le [of "\<lambda>c. \<not> is_space c" s] a by simp
  finally show "(dropWhile is_space rs, s) \<in> measure length" by simp
qed

declare split_ws.simps [simp del]

text \<open>\<^verbatim>\<open>parts.join(' ')\<close>.\<close>

fun join_space :: "string list \<Rightarrow> string" where
  "join_space [] = []"
| "join_space [x] = x"
| "join_space (x # y # ys) = x @ '' '' @ join_space (y # ys)"

text \<open>\<^verbatim>\<open>a || b\<close> on strings.\<close>

definition or_else :: "string \<Rightarrow> string \<Rightarrow> string" where
  "or_else a b = (if a \<noteq> [] then a else b)"

text \<open>\<^verbatim>\<open>v || ''\<close> on a value that may be null.\<close>

definition or_empty :: "string option \<Rightarrow> string" where
  "or_empty v = (case v of None \<Rightarrow> [] | Some s \<Rightarrow> s)"

text \<open>\<^verbatim>\<open>!v\<close> on a value that may be null.\<close>

definition falsy :: "string option \<Rightarrow> bool" where
  "falsy v = (v = None \<or> v = Some [])"

section \<open>Rows, Sink records and change sets\<close>

text \<open>The people row (the columns of \<^verbatim>\<open>people.csv\<close>).\<close>

record people_row =
  first_name :: string
  last_name :: string
  full_name :: string
  job_title :: string
  company_name :: string
  company_domain :: string
  linkedin_url :: string
  heyreach_lead_id :: string
  lead_source :: string
  campaign_name :: string
  campaign_id :: string
  owner_email :: string
  lead_status :: string
  last_touch_at :: string
  last_reply_at :: string

text \<open>
  A value of a Sink attribute: a text, a personal name (full, first, last), a personal
  name without the full name (first, last), or a list of references to records of an
  object.
\<close>

datatype attr_value =
    Text string
  | Name string string string
  | FirstLast string string
  | Refs string "string list"

text \<open>A JavaScript object with attribute slugs as keys, in insertion order.\<close>

type_synonym changes = "(string \<times> attr_value) list"

text \<open>
  A record as the Sink returns it: \<^verbatim>\<open>record.id.record_id\<close> and
  \<^verbatim>\<open>record.values\<close>, each attribute holding its values latest first.
\<close>

record attio_record =
  record_id :: "string option"
  rec_values :: "(string \<times> attr_value list) list"

record current_values =
  cur_full_name :: "string option"
  cur_first_name :: "string option"
  cur_last_name :: "string option"
  cur_job_title :: "string option"
  cur_company_name :: "string option"
  cur_heyreach_lead_id :: "string option"

definition getLatest :: "(string \<times> attr_value list) list \<Rightarrow> string \<Rightarrow> attr_value option" where
  "getLatest vals field =
     (case map_of vals field of
        None \<Rightarrow> None
      | Some [] \<Rightarrow> None
      | Some (v # _) \<Rightarrow> Some v)"

text \<open>\<^verbatim>\<open>f ? f.full_name : null\<close> and its siblings; a property that the value
  does not have reads as undefined, which every later use treats as null.\<close>

definition name_full :: "attr_value option \<Rightarrow> string option" where
  "name_full f = (case f of Some (Name fu _ _) \<Rightarrow> Some fu | _ \<Rightarrow> None)"

definition name_first :: "attr_value option \<Rightarrow> string option" where
  "name_first f = (case f of Some (Name _ fi _) \<Rightarrow> Some fi | _ \<Rightarrow> None)"

definition name_last :: "attr_value option \<Rightarrow> string option" where
  "name_last f = (case f of Some (Name _ _ la) \<Rightarrow> Some la | _ \<Rightarrow> None)"

definition text_value :: "attr_value option \<Rightarrow> string option" where
  "text_value f = (case f of Some (Text v) \<Rightarrow> Some v | _ \<Rightarrow> None)"

definition extractCurrentValues :: "attio_record \<Rightarrow> current_values" where
  "extractCurrentValues attioRecord =
     (let vals = rec_values attioRecord;
          nameField = getLatest vals ''name'';
          jobTitleField = getLatest vals ''job_title_5'';
          companyNameField = getLatest vals ''company_name'';
          heyreachIdField = getLatest vals ''heyreach_lead_id''
      in \<lparr> cur_full_name = name_full nameField,
           cur_first_name = name_first nameField,
           cur_last_name = name_last nameField,
           cur_job_title = text_value jobTitleField,
           cur_company_name = text_value companyNameField,
           cur_heyreach_lead_id = text_value heyreachIdField \<rparr>)"

section \<open>detectChanges\<close>

text \<open>The candidate full name: \<^verbatim>\<open>newRow.full_name || `${newFirst} ${newLast}`.trim()\<close>.\<close>

definition newFull :: "people_row \<Rightarrow> string" where
  "newFull newRow =
     or_else (full_name newRow) (trim (first_name newRow @ '' '' @ last_name newRow))"

definition currentFull :: "current_values \<Rightarrow> string" where
  "currentFull currentValues = or_empty (cur_full_name currentValues)"

definition name_change :: "current_values \<Rightarrow> people_row \<Rightarrow> changes" where
  "name_change currentValues newRow =
     (if newFull newRow \<noteq> [] \<and> newFull newRow \<noteq> currentFull currentValues
      then [(''name'',
             Name (newFull newRow)
               (or_else (first_name newRow) (hd (split_ws (newFull newRow))))
               (or_else (last_name newRow) (join_space (tl (split_ws (newFull newRow))))))]
      else [])"

definition job_title_change :: "current_values \<Rightarrow> people_row \<Rightarrow> changes" where
  "job_title_change currentValues newRow =
     (if job_title newRow \<noteq> [] \<and> Some (job_title newRow) \<noteq> cur_job_title currentValues
      then [(''job_title_5'', Text (job_title newRow))] else [])"

definition company_name_change :: "current_values \<Rightarrow> people_row \<Rightarrow> changes" where
  "company_name_change currentValues newRow =
     (if company_name newRow \<noteq> [] \<and> Some (company_name newRow) \<noteq> cur_company_name currentValues
      then [(''company_name'', Text (company_name newRow))] else [])"

definition heyreach_lead_id_change :: "current_values \<Rightarrow> people_row \<Rightarrow> changes" where
  "heyreach_lead_id_change currentValues newRow =
     (if heyreach_lead_id newRow \<noteq> [] \<and> falsy (cur_heyreach_lead_id currentValues)
      then [(''heyreach_lead_id'', Text (heyreach_lead_id newRow))] else [])"

text \<open>The four tests of the source in their order; each adds its key to the object.\<close>

definition detectChanges :: "current_values \<Rightarrow> people_row \<Rightarrow> changes" where
  "detectChanges currentValues newRow =
     name_change currentValues newRow @ job_title_change currentValues newRow
       @ company_name_change currentValues newRow @ heyreach_lead_id_change currentValues newRow"

section \<open>The Sink and the requests sent to it\<close>

text \<open>
  The Sink is an external service. It is a parameter of the model: a deterministic
  machine that answers each request and moves to its next state. Every request the
  engine issues is appended to \<open>sent\<close>.
\<close>

record message_values =
  mv_body :: string
  mv_sent_at :: string
  mv_direction :: string
  mv_channel :: string
  mv_conversation_id :: string
  mv_campaign :: "string option"
  mv_message_uid :: string
  mv_person :: string

datatype request =
    GetObjects
  | QueryPerson string
  | PatchPerson string string changes
  | CreatePerson changes
  | BatchUpsertPeople "changes list"
  | CreateMessage message_values

text \<open>
  What the engine reads of a response body: the object list of \<^verbatim>\<open>/v2/objects\<close>
  (slug and object id), the records of a query, or the record id of a created record.
\<close>

datatype resp_body =
    NoData
  | ObjectList "(string \<times> string) list"
  | RecordList "attio_record list"
  | CreatedId "string option"

text \<open>A request either throws (network failure) or returns a status and a body; the
  client is configured with \<^verbatim>\<open>validateStatus: () => true\<close>, so no status throws.\<close>

datatype response = NetworkError string | Http nat resp_body

type_synonym 's sink = "'s \<Rightarrow> request \<Rightarrow> response \<times> 's"

record 's world =
  sink_state :: 's
  sent :: "request list"
  id_by_url :: "(string \<times> string) list"
  record_cache :: "(string \<times> string \<times> attio_record) list"
  people_object_id :: string
  messages_object_id :: string

definition call :: "'s sink \<Rightarrow> request \<Rightarrow> 's world \<Rightarrow> response \<times> 's world" where
  "call sink req w =
     (case sink (sink_state w) req of
        (resp, s') \<Rightarrow> (resp, w\<lparr> sink_state := s', sent := sent w @ [req] \<rparr>))"

definition ok_status :: "nat \<Rightarrow> bool" where
  "ok_status st = (200 \<le> st \<and> st < 300)"

fun load_object_ids :: "(string \<times> string) list \<Rightarrow> 's world \<Rightarrow> 's world" where
  "load_object_ids [] w = w"
| "load_object_ids ((slug, oid) # items) w =
     (let w1 = (if slug = ''people'' \<and> oid \<noteq> [] then w\<lparr> people_object_id := oid \<rparr> else w);
          w2 = (if slug = ''linkedin_messages'' \<and> oid \<noteq> []
                then w1\<lparr> messages_object_id := oid \<rparr> else w1)
      in load_object_ids items w2)"

text \<open>\<open>Some e\<close> is the exception thrown by the request.\<close>

definition ensureAttioObjectIdsLoaded :: "'s sink \<Rightarrow> 's world \<Rightarrow> string option \<times> 's world" where
  "ensureAttioObjectIdsLoaded sink w =
     (if people_object_id w \<noteq> [] \<and> messages_object_id w \<noteq> [] then (None, w)
      else case call sink GetObjects w of
             (NetworkError e, w') \<Rightarrow> (Some e, w')
           | (Http st b, w') \<Rightarrow>
               (if \<not> ok_status st then (None, w')
                else case b of ObjectList items \<Rightarrow> (None, load_object_ids items w')
                             | _ \<Rightarrow> (None, w')))"

section \<open>updatePersonFields\<close>

record update_result =
  updated :: bool
  upd_fields :: "string list option"
  upd_error :: "string option"

definition updatePersonFields ::
  "'s sink \<Rightarrow> string \<Rightarrow> changes \<Rightarrow> 's world \<Rightarrow> update_result \<times> 's world" where
  "updatePersonFields sink recordId chg w =
     (if length (map fst chg) = 0
      then (\<lparr> updated = False, upd_fields = None, upd_error = None \<rparr>, w)
      else case ensureAttioObjectIdsLoaded sink w of
             (Some e, w1) \<Rightarrow> (\<lparr> updated = False, upd_fields = None, upd_error = Some e \<rparr>, w1)
           | (None, w1) \<Rightarrow>
               (case call sink (PatchPerson (people_object_id w1) recordId chg) w1 of
                  (NetworkError e, w2) \<Rightarrow>
                    (\<lparr> updated = False, upd_fields = None, upd_error = Some e \<rparr>, w2)
                | (Http st b, w2) \<Rightarrow>
                    (if ok_status st
                     then (\<lparr> updated = True, upd_fields = Some (map fst chg), upd_error = None \<rparr>, w2)
                     else (\<lparr> updated = False, upd_fields = None,
                             upd_error = Some ''Non-2xx status'' \<rparr>, w2))))"

section \<open>findPersonByLinkedInUrl\<close>

text \<open>
  The two caches are JavaScript Maps used through \<^verbatim>\<open>get\<close> and
  \<^verbatim>\<open>set\<close> only: association lists read with \<open>map_of\<close>, a new binding
  put in front.
\<close>

definition findPersonByLinkedInUrl ::
  "'s sink \<Rightarrow> string \<Rightarrow> 's world \<Rightarrow> (string \<times> attio_record) option \<times> 's world" where
  "findPersonByLinkedInUrl sink linkedinUrl w =
     (if linkedinUrl = [] then (None, w)
      else case map_of (record_cache w) linkedinUrl of
             Some cached \<Rightarrow> (Some cached, w)
           | None \<Rightarrow>
               (case call sink (QueryPerson linkedinUrl) w of
                  (NetworkError e, w1) \<Rightarrow> (None, w1)
                | (Http st b, w1) \<Rightarrow>
                    (if \<not> ok_status st then (None, w1)
                     else case b of
                            RecordList (record # _) \<Rightarrow>
                              (case record_id record of
                                 None \<Rightarrow> (None, w1)
                               | Some recordId \<Rightarrow>
                                   (if recordId = [] then (None, w1)
                                    else (Some (recordId, record),
                                          w1\<lparr> id_by_url := (linkedinUrl, recordId) # id_by_url w1,
                                               record_cache :=
                                                 (linkedinUrl, (recordId, record)) # record_cache w1 \<rparr>)))
                          | _ \<Rightarrow> (None, w1))))"

section \<open>attioUpsertPeople\<close>

text \<open>The settings read from the environment that the Sink side consults.\<close>

record config =
  AT_DRY_RUN :: bool
  people_records_endpoint :: bool
  AT_DISABLE_THREADS_UPSERT :: bool
  AT_LIMIT_MESSAGES :: int

text \<open>
  \<open>people_records_endpoint\<close> says whether the people upsert URL matches
  \<^verbatim>\<open>/\/v2\/objects\/people\/records$/i\<close>, the single-record endpoint.
\<close>

text \<open>
  \<^verbatim>\<open>row.linkedin_url.match(/linkedin\.com\/in\/([^\/\?]+)/)\<close>: the first place
  where the literal is followed by at least one character other than \<open>/\<close> and
  \<open>?\<close>; the slug is the longest run of such characters.
\<close>

definition slug_char :: "char \<Rightarrow> bool" where
  "slug_char c = (c \<noteq> CHR ''/'' \<and> c \<noteq> CHR ''?'')"

fun linkedin_slug :: "string \<Rightarrow> string option" where
  "linkedin_slug [] = None"
| "linkedin_slug (c # cs) =
     (if prefix ''linkedin.com/in/'' (c # cs)
         \<and> takeWhile slug_char (drop 16 (c # cs)) \<noteq> []
      then Some (takeWhile slug_char (drop 16 (c # cs)))
      else linkedin_slug cs)"

definition to_lower :: "char \<Rightarrow> char" where
  "to_lower c = (if CHR ''A'' \<le> c \<and> c \<le> CHR ''Z'' then char_of (of_char c + (32::nat)) else c)"

text \<open>\<^verbatim>\<open>/^conversation-/i.test(slug)\<close>.\<close>

definition synthetic_slug :: "string \<Rightarrow> bool" where
  "synthetic_slug slug = prefix ''conversation-'' (map to_lower slug)"

text \<open>The name put into a created record.\<close>

definition create_name :: "people_row \<Rightarrow> changes" where
  "create_name row =
     (if first_name row \<noteq> [] \<or> last_name row \<noteq> []
      then [(''name'', Name (trim (first_name row @ '' '' @ last_name row))
                         (first_name row) (last_name row))]
      else if full_name row \<noteq> []
      then (let full = trim (full_name row); parts = split_ws full
            in [(''name'', Name full (join_space (butlast parts)) (last parts))])
      else [])"

definition create_linkedin :: "people_row \<Rightarrow> changes" where
  "create_linkedin row =
     (if linkedin_url row \<noteq> []
      then (case linkedin_slug (linkedin_url row) of
              Some slug \<Rightarrow> (if \<not> synthetic_slug slug then [(''linkedin'', Text slug)] else [])
            | None \<Rightarrow> [])
           @ [(''linkedin_url_6'', Text (linkedin_url row))]
      else [])"

text \<open>
  The values of a created person. The rows of this program have no \<open>email\<close>
  column, so the \<^verbatim>\<open>row.email\<close> test never adds a key.
\<close>

definition directValues :: "people_row \<Rightarrow> changes" where
  "directValues row = create_name row @ create_linkedin row"

datatype outcome = Created | Updated | UpdateFailed | Unchanged | CreateFailed | Threw

text \<open>
  One turn of the loop over the rows on the single-record endpoint. The boolean says
  whether \<open>ok\<close> was incremented; the outcome names the branch taken.
\<close>

definition upsert_person_row ::
  "'s sink \<Rightarrow> people_row \<Rightarrow> 's world \<Rightarrow> (outcome \<times> bool) \<times> 's world" where
  "upsert_person_row sink row w =
     (case findPersonByLinkedInUrl sink (linkedin_url row) w of
        (Some (recordId, record), w1) \<Rightarrow>
          (let w2 = w1\<lparr> id_by_url := (linkedin_url row, recordId) # id_by_url w1 \<rparr>;
               currentValues = extractCurrentValues record;
               chg = detectChanges currentValues row
           in if length (map fst chg) > 0
              then (case updatePersonFields sink recordId chg w2 of
                      (updateResult, w3) \<Rightarrow>
                        ((if updated updateResult then Updated else UpdateFailed, True), w3))
              else ((Unchanged, True), w2))
      | (None, w1) \<Rightarrow>
          (case call sink (CreatePerson (directValues row)) w1 of
             (NetworkError e, w2) \<Rightarrow> ((Threw, False), w2)
           | (Http st b, w2) \<Rightarrow>
               (if \<not> ok_status st then ((CreateFailed, False), w2)
                else case b of
                       CreatedId (Some recordId) \<Rightarrow>
                         (if recordId \<noteq> [] \<and> linkedin_url row \<noteq> []
                          then ((Created, True),
                                w2\<lparr> id_by_url := (linkedin_url row, recordId) # id_by_url w2 \<rparr>)
                          else ((Created, True), w2))
                     | _ \<Rightarrow> ((Created, True), w2))))"

fun upsert_person_rows ::
  "'s sink \<Rightarrow> people_row list \<Rightarrow> 's world \<Rightarrow> (outcome list \<times> nat) \<times> 's world" where
  "upsert_person_rows sink [] w = (([], 0), w)"
| "upsert_person_rows sink (row # rows) w =
     (case upsert_person_row sink row w of
        ((out, counted), w1) \<Rightarrow>
          (case upsert_person_rows sink rows w1 of
             ((outs, ok), w2) \<Rightarrow> ((out # outs, (if counted then Suc ok else ok)), w2)))"

text \<open>The values of one item of the batch upsert.\<close>

definition mapPersonRowToValues :: "people_row \<Rightarrow> changes" where
  "mapPersonRowToValues row =
     (if full_name row \<noteq> [] \<and> \<not> (first_name row \<noteq> [] \<or> last_name row \<noteq> [])
      then (let parts = split_ws (trim (full_name row))
            in [(''name'', FirstLast (join_space (butlast parts)) (last parts))])
      else if first_name row \<noteq> [] \<or> last_name row \<noteq> []
      then [(''name'', FirstLast (first_name row) (last_name row))]
      else [])
     @ (if job_title row \<noteq> [] then [(''job_title'', Text (job_title row))] else [])
     @ (if company_name row \<noteq> [] then [(''company_name'', Text (company_name row))] else [])
     @ (if linkedin_url row \<noteq> [] then [(''linkedin_url_6'', Text (linkedin_url row))] else [])
     @ (if heyreach_lead_id row \<noteq> []
        then [(''heyreach_lead_id'', Text (heyreach_lead_id row))] else [])
     @ (if last_reply_at row \<noteq> [] then [(''last_reply_at'', Text (last_reply_at row))] else [])
     @ (if last_touch_at row \<noteq> []
        then [(''last_contacted_at'', Text (last_touch_at row))] else [])"

text \<open>
  \<open>Inl e\<close> is an exception that leaves the function; \<open>Inr n\<close> is the returned
  count \<^verbatim>\<open>upserted\<close>. The outcomes of the rows are returned beside it.
\<close>

definition attioUpsertPeople ::
  "config \<Rightarrow> 's sink \<Rightarrow> people_row list \<Rightarrow> 's world
     \<Rightarrow> (string + nat) \<times> outcome list \<times> 's world" where
  "attioUpsertPeople cfg sink peopleRows w =
     (if length peopleRows = 0 then (Inr 0, [], w)
      else if AT_DRY_RUN cfg then (Inr (length peopleRows), [], w)
      else case ensureAttioObjectIdsLoaded sink w of
             (Some e, w1) \<Rightarrow> (Inl e, [], w1)
           | (None, w1) \<Rightarrow>
               (if people_records_endpoint cfg
                then (case upsert_person_rows sink peopleRows w1 of
                        ((outs, ok), w2) \<Rightarrow> (Inr ok, outs, w2))
                else (case call sink (BatchUpsertPeople (map mapPersonRowToValues peopleRows)) w1 of
                        (NetworkError e, w2) \<Rightarrow> (Inl e, [], w2)
                      | (Http st b, w2) \<Rightarrow>
                          (if \<not> ok_status st then (Inl ''Attio people upsert failed'', [], w2)
                           else (Inr (length peopleRows), [], w2)))))"

section \<open>Predicates used to state the properties\<close>






text \<open>A request failed: it threw, or its status is not 2xx.\<close>

definition failed :: "response \<Rightarrow> bool" where
  "failed resp = (case resp of NetworkError e \<Rightarrow> True | Http st b \<Rightarrow> \<not> ok_status st)"

definition is_patch :: "request \<Rightarrow> bool" where
  "is_patch req = (case req of PatchPerson _ _ _ \<Rightarrow> True | _ \<Rightarrow> False)"

section \<open>normalizeLinkedInUrl\<close>


text \<open>
  The class \<^verbatim>\<open>URL\<close> belongs to the platform, not to the program. It is a
  parameter: for the string given to \<^verbatim>\<open>new URL\<close>, \<open>None\<close> when the
  constructor throws, and otherwise the host name together with the serialisation of
  the URL once its hash and its search are set to the empty string.
\<close>

type_synonym url_parser = "string \<Rightarrow> (string \<times> string) option"

text \<open>\<^verbatim>\<open>if (s.endsWith('/')) s = s.slice(0, -1)\<close>.\<close>

definition strip_slash :: "string \<Rightarrow> string" where
  "strip_slash s = (if s \<noteq> [] \<and> last s = CHR ''/'' then butlast s else s)"

text \<open>
  The function on a string: the test for the empty string, the \<^verbatim>\<open>try\<close> block,
  and the handler, which returns the trimmed string when the constructor has thrown.
  Nothing in it throws on a string. The callers in this program pass a string, the
  result of \<^verbatim>\<open>a || b || ''\<close> on string fields.
\<close>

definition normalizeLinkedInUrl_string :: "url_parser \<Rightarrow> string \<Rightarrow> string" where
  "normalizeLinkedInUrl_string P s =
     (if s = [] then []
      else case P (trim s) of
             None \<Rightarrow> trim s
           | Some (hostname, href) \<Rightarrow>
               (if sublist ''linkedin'' hostname then strip_slash href else trim s))"




text \<open>
  The parser of the platform after the URL standard, for the URLs of the examples
  only. It accepts \<open>https://\<close>, a host of lower-case letters in labels
  separated by single dots, and a path of letters, digits, \<open>/\<close>, \<open>-\<close> and
  \<open>_\<close>, followed or not by a query or a fragment. On these the standard keeps
  host and path as they are and gives the empty path as \<open>/\<close>. Every other string
  is answered with \<open>None\<close>, which is the platform's answer only where the platform
  rejects the string; the properties that quantify over inputs are stated for every
  parser, or for every parser that has the property \<open>roundtrip\<close>.
\<close>

definition host_char :: "char \<Rightarrow> bool" where
  "host_char c = ((CHR ''a'' \<le> c \<and> c \<le> CHR ''z'') \<or> c = CHR ''.'')"

definition path_char :: "char \<Rightarrow> bool" where
  "path_char c =
     ((CHR ''a'' \<le> c \<and> c \<le> CHR ''z'') \<or> (CHR ''A'' \<le> c \<and> c \<le> CHR ''Z'')
      \<or> (CHR ''0'' \<le> c \<and> c \<le> CHR ''9'') \<or> c = CHR ''/'' \<or> c = CHR ''-'' \<or> c = CHR ''_'')"

definition simple_url :: url_parser where
  "simple_url s =
     (if prefix ''https://'' s
      then (let rest = drop 8 s;
                host = takeWhile (\<lambda>c. c \<notin> set ''/?#'') rest;
                path = takeWhile (\<lambda>c. c \<notin> set ''?#'') (dropWhile (\<lambda>c. c \<notin> set ''/?#'') rest)
            in if host \<noteq> [] \<and> list_all host_char host \<and> \<not> sublist ''..'' host
                  \<and> hd host \<noteq> CHR ''.'' \<and> last host \<noteq> CHR ''.'' \<and> list_all path_char path
               then Some (host, ''https://'' @ host @ (if path = [] then ''/'' else path))
               else None)
      else None)"

section \<open>Conversations of the inbox and the rows built from them\<close>

text \<open>
  What the program reads of a conversation. A string field is empty when the Source
  leaves it out: the program reads each of them through \<^verbatim>\<open>|| ''\<close> or tests
  it for truth.
\<close>

record correspondent =
  cp_profileUrl :: string
  cp_profile_url :: string
  cp_firstName :: string
  cp_first_name :: string
  cp_lastName :: string
  cp_last_name :: string
  cp_position :: string
  cp_headline :: string
  cp_companyName :: string

record message =
  sender :: string
  createdAt :: string
  body :: string
  isInMail :: bool

record conversation =
  conv_id :: string
  lastMessageAt :: string
  correspondentProfile :: correspondent
  account_emailAddress :: string
  campaignId :: string
  messages :: "message list"
  totalMessages :: "nat option"
  lastMessageSender :: string
  lastMessageText :: string

definition buildPeopleRowFromCorrespondent :: "url_parser \<Rightarrow> correspondent \<Rightarrow> people_row" where
  "buildPeopleRowFromCorrespondent P c =
     \<lparr> first_name = or_else (cp_firstName c) (cp_first_name c),
       last_name = or_else (cp_lastName c) (cp_last_name c),
       full_name = trim (or_else (cp_firstName c) (cp_first_name c) @ '' ''
                         @ or_else (cp_lastName c) (cp_last_name c)),
       job_title = or_else (cp_position c) (cp_headline c),
       company_name = cp_companyName c,
       company_domain = [],
       linkedin_url = normalizeLinkedInUrl_string P (or_else (cp_profileUrl c) (cp_profile_url c)),
       heyreach_lead_id = [],
       lead_source = ''HeyReach'',
       campaign_name = [],
       campaign_id = [],
       owner_email = [],
       lead_status = [],
       last_touch_at = [],
       last_reply_at = [] \<rparr>"

text \<open>
  The thread row. Three columns of the program are left out: the response time, the
  response rate and the conversation stage are computed in floating point from parsed
  dates and the clock. \<open>t_messages\<close> stands for the column \<open>messages_json\<close>,
  the list that \<^verbatim>\<open>JSON.parse\<close> gives back.
\<close>

record thread_row =
  t_person_match_linkedin_url :: string
  t_lead_id :: string
  t_thread_id :: string
  t_campaign_id :: string
  t_first_message_at :: string
  t_last_message_at :: string
  t_total_messages :: nat
  t_last_message_text :: string
  t_last_sender :: string
  t_last_direction :: string
  t_last_channel :: string
  t_message_count_sent :: nat
  t_message_count_received :: nat
  t_first_sent_at :: "string option"
  t_first_received_at :: "string option"
  t_last_sent_at :: "string option"
  t_last_received_at :: "string option"
  t_messages :: "message list"

record message_row =
  m_person_match_linkedin_url :: string
  m_lead_id :: string
  m_direction :: string
  m_channel :: string
  m_message_id :: string
  m_thread_id :: string
  m_campaign_id :: string
  m_timestamp :: string
  m_body :: string
  m_raw :: message

text \<open>The watermark file.\<close>

record sync_entry =
  last_message_at :: string
  message_count :: nat
  last_synced :: string

record sync_state =
  last_sync :: "string option"
  threads :: "(string \<times> sync_entry) list"

text \<open>\<^verbatim>\<open>syncState.last_sync && !FORCE_INBOX\<close>.\<close>

definition isIncrementalSync :: "sync_state \<Rightarrow> bool \<Rightarrow> bool" where
  "isIncrementalSync syncState force_inbox = (\<not> falsy (last_sync syncState) \<and> \<not> force_inbox)"

text \<open>\<^verbatim>\<open>threads[convId] = entry\<close> on a JavaScript object: the binding of an
  existing key is replaced where it stands, a new key is added at the end.\<close>

fun set_key :: "string \<Rightarrow> 'v \<Rightarrow> (string \<times> 'v) list \<Rightarrow> (string \<times> 'v) list" where
  "set_key k v [] = [(k, v)]"
| "set_key k v ((k', v') # kvs) = (if k = k' then (k, v) # kvs else (k', v') # set_key k v kvs)"

record inbox_state =
  peopleRows :: "people_row list"
  messageRows :: "message_row list"
  threadRows :: "thread_row list"
  peopleByUrl :: "string list"
  syncState :: sync_state

text \<open>\<^verbatim>\<open>xs[0]?.createdAt || null\<close> and \<^verbatim>\<open>xs[xs.length - 1]?.createdAt || null\<close>.\<close>

definition first_createdAt :: "message list \<Rightarrow> string option" where
  "first_createdAt ms =
     (case ms of [] \<Rightarrow> None | m # _ \<Rightarrow> (if createdAt m = [] then None else Some (createdAt m)))"

definition last_createdAt :: "message list \<Rightarrow> string option" where
  "last_createdAt ms =
     (if ms = [] then None
      else if createdAt (last ms) = [] then None else Some (createdAt (last ms)))"

text \<open>The reduction that finds the earliest time stamp, starting from the last one.\<close>

definition firstAt :: "conversation \<Rightarrow> string" where
  "firstAt conv =
     foldl (\<lambda>m msg. (if m = [] \<or> (createdAt msg \<noteq> [] \<and> createdAt msg < m) then createdAt msg else m))
       (lastMessageAt conv) (messages conv)"

text \<open>The identity key of a conversation: the normalised profile URL, or the synthetic
  URL built from the conversation id when that is empty.\<close>

definition conv_liUrl :: "url_parser \<Rightarrow> conversation \<Rightarrow> string" where
  "conv_liUrl P conv =
     (let correspondent = correspondentProfile conv;
          liUrl = normalizeLinkedInUrl_string P
                    (or_else (cp_profileUrl correspondent) (cp_profile_url correspondent))
      in if liUrl = [] then ''https://www.linkedin.com/in/conversation-'' @ conv_id conv
         else liUrl)"

definition conv_personRow :: "url_parser \<Rightarrow> conversation \<Rightarrow> people_row" where
  "conv_personRow P conv =
     (buildPeopleRowFromCorrespondent P (correspondentProfile conv))
       \<lparr> linkedin_url := conv_liUrl P conv,
         campaign_id := campaignId conv,
         campaign_name := (if campaignId conv \<noteq> [] then ''Campaign '' @ campaignId conv else []),
         owner_email := account_emailAddress conv \<rparr>"

definition conv_totalMessages :: "conversation \<Rightarrow> nat" where
  "conv_totalMessages conv =
     (case totalMessages conv of Some n \<Rightarrow> n | None \<Rightarrow> length (messages conv))"

definition conv_threadRow :: "url_parser \<Rightarrow> conversation \<Rightarrow> thread_row" where
  "conv_threadRow P conv =
     (let msgs = messages conv;
          sentMessages = filter (\<lambda>m. sender m = ''ME'') msgs;
          receivedMessages = filter (\<lambda>m. sender m \<noteq> ''ME'') msgs;
          lastSender = or_else (lastMessageSender conv) (if msgs \<noteq> [] then sender (last msgs) else [])
      in \<lparr> t_person_match_linkedin_url = conv_liUrl P conv,
           t_lead_id = [],
           t_thread_id = conv_id conv,
           t_campaign_id = campaignId conv,
           t_first_message_at = firstAt conv,
           t_last_message_at = lastMessageAt conv,
           t_total_messages = conv_totalMessages conv,
           t_last_message_text = lastMessageText conv,
           t_last_sender = lastSender,
           t_last_direction = (if lastSender = ''ME'' then ''sent''
                               else if lastSender \<noteq> [] then ''received'' else []),
           t_last_channel = (if msgs \<noteq> [] \<and> isInMail (last msgs) then ''inmail'' else ''dm''),
           t_message_count_sent = length sentMessages,
           t_message_count_received = length receivedMessages,
           t_first_sent_at = first_createdAt sentMessages,
           t_first_received_at = first_createdAt receivedMessages,
           t_last_sent_at = last_createdAt sentMessages,
           t_last_received_at = last_createdAt receivedMessages,
           t_messages = msgs \<rparr>)"

definition conv_messageRow :: "url_parser \<Rightarrow> conversation \<Rightarrow> message \<Rightarrow> message_row" where
  "conv_messageRow P conv m =
     \<lparr> m_person_match_linkedin_url = conv_liUrl P conv,
       m_lead_id = [],
       m_direction = (if sender m = ''ME'' then ''sent'' else if sender m \<noteq> [] then ''received'' else []),
       m_channel = (if isInMail m then ''inmail'' else ''dm''),
       m_message_id = [],
       m_thread_id = conv_id conv,
       m_campaign_id = campaignId conv,
       m_timestamp = createdAt m,
       m_body = body m,
       m_raw = m \<rparr>"

text \<open>The test that skips an unchanged thread.\<close>

definition skip_unchanged :: "bool \<Rightarrow> sync_state \<Rightarrow> conversation \<Rightarrow> bool" where
  "skip_unchanged incremental st conv =
     (incremental \<and>
      (case map_of (threads st) (conv_id conv) of
         None \<Rightarrow> False
       | Some entry \<Rightarrow> last_message_at entry \<ge> lastMessageAt conv))"

text \<open>
  The body of the loop over the conversations of a page. \<open>now\<close> is the time that
  \<^verbatim>\<open>new Date().toISOString()\<close> gives.
\<close>

definition process_conv ::
  "url_parser \<Rightarrow> bool \<Rightarrow> string \<Rightarrow> inbox_state \<Rightarrow> conversation \<Rightarrow> inbox_state" where
  "process_conv P incremental now st conv =
     (if skip_unchanged incremental (syncState st) conv then st
      else
        (let liUrl = conv_liUrl P conv;
             st1 = (if liUrl \<noteq> [] \<and> liUrl \<notin> set (peopleByUrl st)
                    then st\<lparr> peopleByUrl := peopleByUrl st @ [liUrl],
                             peopleRows := peopleRows st @ [conv_personRow P conv] \<rparr>
                    else st);
             st2 = st1\<lparr> threadRows := threadRows st1 @ [conv_threadRow P conv] \<rparr>;
             st3 = st2\<lparr> syncState := (syncState st2)
                          \<lparr> threads := set_key (conv_id conv)
                               \<lparr> last_message_at = lastMessageAt conv,
                                 message_count = conv_totalMessages conv,
                                 last_synced = now \<rparr>
                               (threads (syncState st2)) \<rparr> \<rparr>
         in st3\<lparr> messageRows := messageRows st3 @ map (conv_messageRow P conv) (messages conv) \<rparr>))"

text \<open>The state at the start of the inbox flow, with the watermark read from the file.\<close>

definition start_state :: "sync_state \<Rightarrow> inbox_state" where
  "start_state ss = \<lparr> peopleRows = [], messageRows = [], threadRows = [], peopleByUrl = [],
     syncState = ss \<rparr>"

definition process_convs ::
  "url_parser \<Rightarrow> bool \<Rightarrow> string \<Rightarrow> inbox_state \<Rightarrow> conversation list \<Rightarrow> inbox_state" where
  "process_convs P incremental now st convs = foldl (process_conv P incremental now) st convs"

text \<open>The guard that validates the people rows after extraction.\<close>

fun validate_people :: "string list \<Rightarrow> people_row list \<Rightarrow> people_row list" where
  "validate_people seenUrls [] = []"
| "validate_people seenUrls (person # rest) =
     (if linkedin_url person \<noteq> [] \<and> linkedin_url person \<notin> set seenUrls
      then person # validate_people (linkedin_url person # seenUrls) rest
      else validate_people seenUrls rest)"

text \<open>
  The guard on thread rows builds its key from \<^verbatim>\<open>thread.linkedin_url\<close>, a
  column that thread rows do not have: the key is \<open>undefined-\<close> followed by the
  thread id.
\<close>

fun validate_threads :: "string list \<Rightarrow> thread_row list \<Rightarrow> thread_row list" where
  "validate_threads seenThreads [] = []"
| "validate_threads seenThreads (thread # rest) =
     (let key = ''undefined-'' @ t_thread_id thread
      in if key \<notin> set seenThreads
         then thread # validate_threads (key # seenThreads) rest
         else validate_threads seenThreads rest)"

text \<open>The keys of the people rows are the seen keys, each once and none empty.\<close>

definition keyed :: "inbox_state \<Rightarrow> bool" where
  "keyed st = (map linkedin_url (peopleRows st) = peopleByUrl st \<and> distinct (peopleByUrl st)
                \<and> [] \<notin> set (peopleByUrl st))"

text \<open>
  The elements of a list whose key has not occurred before (neither in \<open>seen\<close> nor
  earlier in the list): the first occurrence of every key, in order.
\<close>

fun keep_first :: "('a \<Rightarrow> 'k) \<Rightarrow> 'k list \<Rightarrow> 'a list \<Rightarrow> 'a list" where
  "keep_first key seen [] = []"
| "keep_first key seen (x # xs) =
     (if key x \<in> set seen then keep_first key seen xs
      else x # keep_first key (seen @ [key x]) xs)"


section \<open>attioUpsertThreads\<close>

text \<open>The uniqueness token of a message:
  \<^verbatim>\<open>`${thread.thread_id || ''}:${m.createdAt || ''}:${m.sender || ''}`\<close>.\<close>

definition message_uid :: "thread_row \<Rightarrow> message \<Rightarrow> string" where
  "message_uid thread m = t_thread_id thread @ '':'' @ createdAt m @ '':'' @ sender m"

definition message_vals :: "thread_row \<Rightarrow> string \<Rightarrow> message \<Rightarrow> message_values" where
  "message_vals thread personId m =
     \<lparr> mv_body = or_else (body m) (t_last_message_text thread),
       mv_sent_at = or_else (createdAt m) (t_first_message_at thread),
       mv_direction = (if sender m = ''ME'' then ''Outbound'' else ''Inbound''),
       mv_channel = (if isInMail m then ''inmail'' else ''dm''),
       mv_conversation_id = t_thread_id thread,
       mv_campaign = (if t_campaign_id thread \<noteq> [] then Some (t_campaign_id thread) else None),
       mv_message_uid = message_uid thread m,
       mv_person = personId \<rparr>"

text \<open>
  The loop over the messages of one thread. Every message is sent to the Sink as a
  create request; no request asks the Sink whether the message is stored. \<open>Inl\<close> is
  the exception that ends the loop: a network failure, or the error thrown on a status
  outside 2xx. The counter \<open>upserted\<close> keeps what was counted before the exception.
\<close>

fun create_messages ::
  "'s sink \<Rightarrow> thread_row \<Rightarrow> string \<Rightarrow> message list \<Rightarrow> string list \<Rightarrow> nat \<Rightarrow> 's world
     \<Rightarrow> (string + string list) \<times> nat \<times> 's world" where
  "create_messages sink thread personId [] createdMessageIds upserted w =
     (Inr createdMessageIds, upserted, w)"
| "create_messages sink thread personId (m # ms) createdMessageIds upserted w =
     (case call sink (CreateMessage (message_vals thread personId m)) w of
        (NetworkError e, w1) \<Rightarrow> (Inl e, upserted, w1)
      | (Http st b, w1) \<Rightarrow>
          (if \<not> ok_status st then (Inl ''Attio message create failed'', upserted, w1)
           else create_messages sink thread personId ms
                  (case b of
                     CreatedId (Some messageId) \<Rightarrow>
                       (if messageId \<noteq> [] then createdMessageIds @ [messageId]
                        else createdMessageIds)
                   | _ \<Rightarrow> createdMessageIds)
                  (Suc upserted) w1))"

text \<open>\<^verbatim>\<open>messages.slice(-n)\<close> for a positive \<open>n\<close>.\<close>

definition limit_messages :: "int \<Rightarrow> message list \<Rightarrow> message list" where
  "limit_messages n ms = (if n > 0 then drop (length ms - nat n) ms else ms)"

text \<open>\<^verbatim>\<open>messagesByPerson.get(personId).push(...ids)\<close>, on a Map that keeps the
  order of insertion.\<close>

fun push_ids :: "string \<Rightarrow> string list \<Rightarrow> (string \<times> string list) list \<Rightarrow> (string \<times> string list) list" where
  "push_ids personId ids [] = [(personId, ids)]"
| "push_ids personId ids ((p, old) # rest) =
     (if p = personId then (p, old @ ids) # rest else (p, old) # push_ids personId ids rest)"

text \<open>Step 1: one turn of the loop over the thread rows.\<close>

definition upsert_thread ::
  "config \<Rightarrow> 's sink \<Rightarrow> thread_row \<Rightarrow> (string \<times> string list) list \<times> nat \<times> 's world
     \<Rightarrow> (string \<times> string list) list \<times> nat \<times> 's world" where
  "upsert_thread cfg sink thread acc =
     (case acc of
        (messagesByPerson, upserted, w) \<Rightarrow>
          (case map_of (id_by_url w) (t_person_match_linkedin_url thread) of
             None \<Rightarrow> (messagesByPerson, upserted, w)
           | Some personId \<Rightarrow>
               (if personId = [] then (messagesByPerson, upserted, w)
                else case create_messages sink thread personId
                            (limit_messages (AT_LIMIT_MESSAGES cfg) (t_messages thread)) [] upserted w of
                       (Inl e, upserted', w1) \<Rightarrow> (messagesByPerson, upserted', w1)
                     | (Inr createdMessageIds, upserted', w1) \<Rightarrow>
                         (if length createdMessageIds > 0
                          then (push_ids personId createdMessageIds messagesByPerson, upserted', w1)
                          else (messagesByPerson, upserted', w1)))))"

text \<open>Step 2: the patch that links the created messages to their person; its failure
  is logged and nothing else.\<close>

definition link_messages :: "'s sink \<Rightarrow> string \<times> string list \<Rightarrow> 's world \<Rightarrow> 's world" where
  "link_messages sink entry w =
     (case entry of
        (personId, messageIds) \<Rightarrow>
          (case ensureAttioObjectIdsLoaded sink w of
             (Some e, w1) \<Rightarrow> w1
           | (None, w1) \<Rightarrow>
               snd (call sink (PatchPerson (people_object_id w1) personId
                      [(''linkedin_messages'', Refs ''linkedin_messages'' messageIds)]) w1)))"

definition attioUpsertThreads ::
  "config \<Rightarrow> 's sink \<Rightarrow> thread_row list \<Rightarrow> 's world \<Rightarrow> nat \<times> 's world" where
  "attioUpsertThreads cfg sink rows w =
     (if length rows = 0 then (0, w)
      else if AT_DISABLE_THREADS_UPSERT cfg then (0, w)
      else if AT_DRY_RUN cfg then (length rows, w)
      else case foldl (\<lambda>acc thread. upsert_thread cfg sink thread acc) ([], 0, w) rows of
             (messagesByPerson, upserted, w1) \<Rightarrow>
               (upserted, foldl (\<lambda>w' entry. link_messages sink entry w') w1 messagesByPerson))"

section \<open>Two Sinks for messages\<close>





section \<open>The requests of the upsert of the threads\<close>


text \<open>From the world \<open>w\<close> to the world \<open>w'\<close> requests were sent, all of them of
  the kind \<open>P\<close>.\<close>

definition sends_only :: "(request \<Rightarrow> bool) \<Rightarrow> 's world \<Rightarrow> 's world \<Rightarrow> bool" where
  "sends_only P w w' = (\<exists>reqs. sent w' = sent w @ reqs \<and> list_all P reqs)"

section \<open>A Sink that stores people\<close>





section \<open>Pagination\<close>

text \<open>
  What \<open>fetchInboxConversations\<close> returns for a request: the total count (0 when the
  Source gives none) and the items. The request itself is a parameter of the model, a
  function of the offset for one filter set and one page size; \<open>Inl\<close> is the
  exception of a request that failed after its retries.
\<close>

record 'a page =
  totalCount :: nat
  page_items :: "'a list"

text \<open>
  The loop over the pages of one filter set. The result lists the requests issued, each
  with its offset and the items it returned.
\<close>

function inbox_pages ::
  "(nat \<Rightarrow> string + 'a page) \<Rightarrow> int \<Rightarrow> nat \<Rightarrow> nat \<Rightarrow> string + (nat \<times> 'a list) list" where
  "inbox_pages fetch INBOX_MAX_PAGES page offset =
     (case fetch offset of
        Inl e \<Rightarrow> Inl e
      | Inr pg \<Rightarrow>
          (if length (page_items pg) = 0 then Inr [(offset, [])]
           else if offset + length (page_items pg) \<ge> totalCount pg then Inr [(offset, page_items pg)]
           else if int page + 1 \<ge> INBOX_MAX_PAGES then Inr [(offset, page_items pg)]
           else (case inbox_pages fetch INBOX_MAX_PAGES (page + 1) (offset + length (page_items pg)) of
                   Inl e \<Rightarrow> Inl e
                 | Inr rest \<Rightarrow> Inr ((offset, page_items pg) # rest))))"
  by pat_completeness auto
termination
  by (relation "measure (\<lambda>(fetch, max_pages, page, offset). nat (max_pages - int page))") auto

declare inbox_pages.simps [simp del]

text \<open>
  What \<open>fetchLeadsFromList\<close> and \<open>fetchConversationsForLead\<close> read of a
  response: the items, the next cursor (empty when there is none) and the flag
  \<open>hasMore\<close>.
\<close>

record 'a cursor_page =
  resp_items :: "'a list"
  resp_cursor :: string
  resp_hasMore :: bool

text \<open>
  The loop of \<open>fetchLeadsFromList\<close> and of \<open>fetchConversationsForLead\<close>, which
  differ in the request only. The request is a function of the cursor and the page
  number. The loop has no bound of its own: it is a partial function, \<open>None\<close> when
  it never returns. A result lists the requests issued and the items collected.
\<close>

partial_function (option) page_loop ::
  "(string \<Rightarrow> nat \<Rightarrow> string + 'a cursor_page) \<Rightarrow> int \<Rightarrow> string \<Rightarrow> nat
     \<Rightarrow> (string \<times> nat) list \<Rightarrow> 'a list \<Rightarrow> (string + (string \<times> nat) list \<times> 'a list) option" where
  "page_loop fetch PAGE_LIMIT cursor page requests results =
     (case fetch cursor page of
        Inl e \<Rightarrow> Some (Inl e)
      | Inr pg \<Rightarrow>
          (if resp_cursor pg \<noteq> []
           then page_loop fetch PAGE_LIMIT (resp_cursor pg) page
                  (requests @ [(cursor, page)]) (results @ resp_items pg)
           else if resp_hasMore pg
           then page_loop fetch PAGE_LIMIT [] (page + 1)
                  (requests @ [(cursor, page)]) (results @ resp_items pg)
           else if int (length (resp_items pg)) = PAGE_LIMIT
           then page_loop fetch PAGE_LIMIT [] (page + 1)
                  (requests @ [(cursor, page)]) (results @ resp_items pg)
           else Some (Inr (requests @ [(cursor, page)], results @ resp_items pg))))"

declare page_loop.simps [code]

definition fetchLeadsFromList ::
  "(string \<Rightarrow> nat \<Rightarrow> string + 'a cursor_page) \<Rightarrow> int
     \<Rightarrow> (string + (string \<times> nat) list \<times> 'a list) option" where
  "fetchLeadsFromList fetch PAGE_LIMIT = page_loop fetch PAGE_LIMIT [] 1 [] []"

definition fetchConversationsForLead ::
  "(string \<Rightarrow> nat \<Rightarrow> string + 'a cursor_page) \<Rightarrow> int
     \<Rightarrow> (string + (string \<times> nat) list \<times> 'a list) option" where
  "fetchConversationsForLead fetch PAGE_LIMIT = page_loop fetch PAGE_LIMIT [] 1 [] []"

text \<open>
  A later store holds every message of an earlier one, and its tokens are pairwise
  distinct if those of the earlier one are.
\<close>

definition store_grows :: "message_values list \<Rightarrow> message_values list \<Rightarrow> bool" where
  "store_grows s s' =
     (set s \<subseteq> set s' \<and> (distinct (map mv_message_uid s) \<longrightarrow> distinct (map mv_message_uid s')))"


section \<open>The run\<close>

text \<open>The settings of the extraction.\<close>

record extract_config =
  LIST_IDS :: "string list"
  INBOX_CAMPAIGN_IDS :: "int list"
  INBOX_ACCOUNT_IDS :: "int list"
  MAX_INBOX_BATCHES :: int
  INBOX_MAX_PAGES :: int
  INBOX_LIMIT :: int
  FORCE_INBOX :: bool
  conversations_url_inbox :: bool
  PAGE_LIMIT :: int
  MAX_LEADS :: int

text \<open>
  \<open>conversations_url_inbox\<close> says whether the legacy conversations URL is set and
  contains \<^verbatim>\<open>/inbox/\<close>.
\<close>

definition useInbox :: "extract_config \<Rightarrow> bool" where
  "useInbox cfg = (FORCE_INBOX cfg \<or> conversations_url_inbox cfg)"

text \<open>The filter of a batch: one list, one campaign, one account, or a campaign with an
  account.\<close>

datatype filters =
    ListIds string
  | CampaignIds int
  | LinkedInAccountIds int
  | CampaignAndAccount int int

text \<open>What the program reads of a lead in order to identify it.\<close>

record lead =
  ld_leadId :: string
  ld_id :: string
  ld_lead_id :: string
  ld_linkedinProfileUrl :: string
  ld_linkedin_url :: string
  ld_profileUrl :: string
  ld_profile_url :: string

text \<open>
  The Source is an external service, a parameter of the model. Each request is given
  with the result that the program sees after its retries: \<open>Inl\<close> is the exception
  of a request that failed.
\<close>

record 'm source =
  fetchCampaignIds :: "string + int list"
  fetchLinkedInAccountIds :: "string + int list"
  fetchInboxConversations :: "filters \<Rightarrow> int \<Rightarrow> nat \<Rightarrow> string + conversation page"
  leads_request :: "string option \<Rightarrow> string \<Rightarrow> nat \<Rightarrow> string + lead cursor_page"
  conversations_request :: "string \<Rightarrow> string \<Rightarrow> nat \<Rightarrow> string + 'm cursor_page"

record error_record =
  stage :: string
  err_listId :: "string option"
  err_leadId :: "string option"
  err_message :: string

text \<open>The report of a run. The stack trace of an error record, the time stamps and the
  echo of the settings are left out.\<close>

record report =
  rp_uniqueLeads :: nat
  rp_peopleRows :: nat
  rp_peopleSkipped :: nat
  rp_messageRows :: nat
  rp_threadRows :: "nat option"
  rp_skippedPeople :: "(string \<times> string) list"
  rp_errors :: "error_record list"

subsection \<open>The inbox flow\<close>

definition filtersBatches :: "extract_config \<Rightarrow> int list \<Rightarrow> int list \<Rightarrow> filters list" where
  "filtersBatches cfg campaignIds accountIds =
     map ListIds (LIST_IDS cfg)
     @ (if INBOX_CAMPAIGN_IDS cfg \<noteq> [] \<and> INBOX_ACCOUNT_IDS cfg = []
        then map CampaignIds campaignIds
        else if INBOX_CAMPAIGN_IDS cfg = [] \<and> INBOX_ACCOUNT_IDS cfg \<noteq> []
        then map LinkedInAccountIds accountIds
        else concat (map (\<lambda>cid. map (CampaignAndAccount cid) accountIds) campaignIds))"

definition cappedBatches :: "extract_config \<Rightarrow> filters list \<Rightarrow> filters list" where
  "cappedBatches cfg batches =
     (if MAX_INBOX_BATCHES cfg > 0 then take (nat (MAX_INBOX_BATCHES cfg)) batches else batches)"

text \<open>
  The conversations of all batches, in the order of the batches. A request that fails
  ends the extraction with its exception. The program runs the batches through a pool
  of width \<^verbatim>\<open>HR_INBOX_CONCURRENCY\<close>, 1 unless configured: with a wider pool
  the pages of different batches interleave, and the conversations reach the loop in
  another order. The turn of the loop for one conversation has no suspension point, and
  the properties of the loop are stated for every state and every list of conversations.
\<close>

fun extract_batches ::
  "'m source \<Rightarrow> extract_config \<Rightarrow> filters list \<Rightarrow> string + conversation list" where
  "extract_batches src cfg [] = Inr []"
| "extract_batches src cfg (f # fs) =
     (case inbox_pages (fetchInboxConversations src f (INBOX_LIMIT cfg)) (INBOX_MAX_PAGES cfg) 0 0 of
        Inl e \<Rightarrow> Inl e
      | Inr pages \<Rightarrow>
          (case extract_batches src cfg fs of
             Inl e \<Rightarrow> Inl e
           | Inr convs \<Rightarrow> Inr (concat (map snd pages) @ convs)))"

text \<open>
  The extraction of the inbox flow: the campaigns and accounts (those configured, or
  else those of the Source), the batches, and the conversations of the batches.
\<close>

definition inbox_extraction :: "'m source \<Rightarrow> extract_config \<Rightarrow> string + conversation list" where
  "inbox_extraction src cfg =
     (case (if INBOX_CAMPAIGN_IDS cfg \<noteq> [] then Inr (INBOX_CAMPAIGN_IDS cfg) else fetchCampaignIds src) of
        Inl e \<Rightarrow> Inl e
      | Inr campaignIds \<Rightarrow>
          (case (if INBOX_ACCOUNT_IDS cfg \<noteq> [] then Inr (INBOX_ACCOUNT_IDS cfg)
                 else fetchLinkedInAccountIds src) of
             Inl e \<Rightarrow> Inl e
           | Inr accountIds \<Rightarrow>
               extract_batches src cfg (cappedBatches cfg (filtersBatches cfg campaignIds accountIds))))"

text \<open>What the inbox flow leaves behind: the report, the watermark written, the
  outcomes of the people upsert and the world of the Sink.\<close>

record 's inbox_result =
  ir_report :: report
  ir_watermark :: sync_state
  ir_outcomes :: "outcome list"
  ir_world :: "'s world"

text \<open>
  The inbox flow. \<open>Inl\<close> is the exception caught at its end, after which the run
  falls back to the flow over the leads. The upserts have a handler of their own: an
  exception of the people upsert skips the threads upsert and nothing else. The error
  list of the report is the literal empty list.
\<close>

definition inbox_flow ::
  "url_parser \<Rightarrow> extract_config \<Rightarrow> config \<Rightarrow> 'm source \<Rightarrow> 's sink \<Rightarrow> string \<Rightarrow> sync_state
     \<Rightarrow> 's world \<Rightarrow> string + 's inbox_result" where
  "inbox_flow P cfg at src sink now syncState0 w =
     (case inbox_extraction src cfg of
        Inl e \<Rightarrow> Inl e
      | Inr convs \<Rightarrow>
          (let st = process_convs P (isIncrementalSync syncState0 (FORCE_INBOX cfg)) now
                      (start_state syncState0) convs;
               validatedPeople = validate_people [] (peopleRows st);
               validatedThreads = validate_threads [] (threadRows st);
               upserted = (case attioUpsertPeople at sink validatedPeople w of
                             (Inl e, outs, w1) \<Rightarrow> (outs, w1)
                           | (Inr p, outs, w1) \<Rightarrow>
                               (outs, snd (attioUpsertThreads at sink validatedThreads w1)))
           in Inr \<lparr> ir_report =
                      \<lparr> rp_uniqueLeads = 0,
                        rp_peopleRows = length (peopleRows st),
                        rp_peopleSkipped = 0,
                        rp_messageRows = length (messageRows st),
                        rp_threadRows = Some (length (threadRows st)),
                        rp_skippedPeople = [],
                        rp_errors = [] \<rparr>,
                    ir_watermark = (syncState st)\<lparr> last_sync := Some now \<rparr>,
                    ir_outcomes = fst upserted,
                    ir_world = snd upserted \<rparr>))"

subsection \<open>The flow over the leads\<close>

text \<open>\<^verbatim>\<open>lead.leadId || lead.id || lead.lead_id\<close>.\<close>

definition lead_key :: "lead \<Rightarrow> string" where
  "lead_key ld = or_else (ld_leadId ld) (or_else (ld_id ld) (ld_lead_id ld))"

definition lead_liUrl :: "url_parser \<Rightarrow> lead \<Rightarrow> string" where
  "lead_liUrl P ld =
     normalizeLinkedInUrl_string P
       (or_else (ld_linkedinProfileUrl ld) (or_else (ld_linkedin_url ld)
          (or_else (ld_profileUrl ld) (ld_profile_url ld))))"

text \<open>The Map \<open>uniqueLeadsById\<close>: a lead without id is passed over, a lead whose id
  is in the Map as well.\<close>

fun collect_leads :: "lead list \<Rightarrow> (string \<times> lead) list \<Rightarrow> (string \<times> lead) list" where
  "collect_leads [] uniqueLeadsById = uniqueLeadsById"
| "collect_leads (ld # rest) uniqueLeadsById =
     (if lead_key ld = [] then collect_leads rest uniqueLeadsById
      else if lead_key ld \<notin> fst ` set uniqueLeadsById
      then collect_leads rest (uniqueLeadsById @ [(lead_key ld, ld)])
      else collect_leads rest uniqueLeadsById)"

text \<open>
  Step 1 for the configured lists. The extractor of a list is a parameter:
  \<open>None\<close> when it never returns, an exception, or the leads. \<open>None\<close> as a
  result says that the run never ends.
\<close>

fun fetch_lists ::
  "(string option \<Rightarrow> (string + lead list) option) \<Rightarrow> string list
     \<Rightarrow> (string \<times> lead) list \<times> error_record list
     \<Rightarrow> ((string \<times> lead) list \<times> error_record list) option" where
  "fetch_lists fetchLeads [] acc = Some acc"
| "fetch_lists fetchLeads (listId # rest) acc =
     (case fetchLeads (Some listId) of
        None \<Rightarrow> None
      | Some (Inl e) \<Rightarrow>
          fetch_lists fetchLeads rest
            (fst acc, snd acc @ [\<lparr> stage = ''fetchLeadsFromList'', err_listId = Some listId,
                                    err_leadId = None, err_message = e \<rparr>])
      | Some (Inr leads) \<Rightarrow> fetch_lists fetchLeads rest (collect_leads leads (fst acc), snd acc))"

definition fetch_all_leads ::
  "(string option \<Rightarrow> (string + lead list) option)
     \<Rightarrow> ((string \<times> lead) list \<times> error_record list) option" where
  "fetch_all_leads fetchLeads =
     (case fetchLeads None of
        None \<Rightarrow> None
      | Some (Inl e) \<Rightarrow>
          Some ([], [\<lparr> stage = ''fetchLeads'', err_listId = None, err_leadId = None,
                       err_message = e \<rparr>])
      | Some (Inr leads) \<Rightarrow> Some (collect_leads leads [], []))"

text \<open>
  Step 3, the conversations of every lead. A message row is built from the lead id, the
  key and the message; it stands here as the three. The program runs these tasks with
  bounded concurrency, so the order of the rows and of the error records can differ
  from the order of the leads; the model takes the leads in order.
\<close>

fun fetch_conversations ::
  "url_parser \<Rightarrow> (string \<Rightarrow> (string + 'm list) option) \<Rightarrow> lead list
     \<Rightarrow> (string \<times> string \<times> 'm) list \<times> error_record list
     \<Rightarrow> ((string \<times> string \<times> 'm) list \<times> error_record list) option" where
  "fetch_conversations P fetchConvs [] acc = Some acc"
| "fetch_conversations P fetchConvs (ld # rest) acc =
     (if lead_key ld = [] then fetch_conversations P fetchConvs rest acc
      else if lead_liUrl P ld = [] then fetch_conversations P fetchConvs rest acc
      else case fetchConvs (lead_key ld) of
             None \<Rightarrow> None
           | Some (Inl e) \<Rightarrow>
               fetch_conversations P fetchConvs rest
                 (fst acc, snd acc @ [\<lparr> stage = ''fetchConversationsForLead'', err_listId = None,
                                         err_leadId = Some (lead_key ld), err_message = e \<rparr>])
           | Some (Inr conv) \<Rightarrow>
               fetch_conversations P fetchConvs rest
                 (fst acc @ map (\<lambda>m. (lead_key ld, lead_liUrl P ld, m)) conv, snd acc))"

text \<open>Step 1: the leads of every configured list, or all leads when no list is
  configured.\<close>

definition collect_unique_leads ::
  "extract_config \<Rightarrow> (string option \<Rightarrow> (string + lead list) option)
     \<Rightarrow> ((string \<times> lead) list \<times> error_record list) option" where
  "collect_unique_leads cfg fetchLeads =
     (if length (LIST_IDS cfg) > 0 then fetch_lists fetchLeads (LIST_IDS cfg) ([], [])
      else fetch_all_leads fetchLeads)"

definition leadsArray :: "extract_config \<Rightarrow> (string \<times> lead) list \<Rightarrow> lead list" where
  "leadsArray cfg uniqueLeadsById =
     (if MAX_LEADS cfg > 0 \<and> int (length uniqueLeadsById) > MAX_LEADS cfg
      then take (nat (MAX_LEADS cfg)) (map snd uniqueLeadsById)
      else map snd uniqueLeadsById)"

definition per_lead_flow ::
  "url_parser \<Rightarrow> extract_config \<Rightarrow> (string option \<Rightarrow> (string + lead list) option)
     \<Rightarrow> (string \<Rightarrow> (string + 'm list) option) \<Rightarrow> report option" where
  "per_lead_flow P cfg fetchLeads fetchConvs =
     (case collect_unique_leads cfg fetchLeads of
        None \<Rightarrow> None
      | Some (uniqueLeadsById, errors1) \<Rightarrow>
          (let leads = map snd uniqueLeadsById;
               people = filter (\<lambda>ld. lead_liUrl P ld \<noteq> []) leads;
               skippedPeople = map (\<lambda>ld. (''missing_linkedin_url'', lead_key ld))
                                 (filter (\<lambda>ld. lead_liUrl P ld = []) leads)
           in case fetch_conversations P fetchConvs (leadsArray cfg uniqueLeadsById) ([], errors1) of
                None \<Rightarrow> None
              | Some (msgRows, errors) \<Rightarrow>
                  Some \<lparr> rp_uniqueLeads = length uniqueLeadsById,
                         rp_peopleRows = length people,
                         rp_peopleSkipped = length skippedPeople,
                         rp_messageRows = length msgRows,
                         rp_threadRows = None,
                         rp_skippedPeople = skippedPeople,
                         rp_errors = errors \<rparr>))"

text \<open>The two extractors of the flow over the leads, from the requests of the Source.\<close>

definition leads_of ::
  "'m source \<Rightarrow> extract_config \<Rightarrow> string option \<Rightarrow> (string + lead list) option" where
  "leads_of src cfg listId =
     map_option (map_sum id snd) (fetchLeadsFromList (leads_request src listId) (PAGE_LIMIT cfg))"

definition conversations_of ::
  "'m source \<Rightarrow> extract_config \<Rightarrow> string \<Rightarrow> (string + 'm list) option" where
  "conversations_of src cfg leadId =
     map_option (map_sum id snd)
       (fetchConversationsForLead (conversations_request src leadId) (PAGE_LIMIT cfg))"

subsection \<open>main\<close>

text \<open>
  A run that is not a probe of the endpoints: the inbox flow when it is selected and
  ends without exception, and the flow over the leads otherwise. The result is the
  report written at the end; \<open>None\<close> is a run that never ends.
\<close>

definition main ::
  "url_parser \<Rightarrow> extract_config \<Rightarrow> config \<Rightarrow> 'm source \<Rightarrow> 's sink \<Rightarrow> string \<Rightarrow> sync_state
     \<Rightarrow> 's world \<Rightarrow> report option" where
  "main P cfg at src sink now syncState0 w =
     (if useInbox cfg
      then (case inbox_flow P cfg at src sink now syncState0 w of
              Inr result \<Rightarrow> Some (ir_report result)
            | Inl e \<Rightarrow> per_lead_flow P cfg (leads_of src cfg) (conversations_of src cfg))
      else per_lead_flow P cfg (leads_of src cfg) (conversations_of src cfg))"

text \<open>The error records of the three stages.\<close>

definition list_error :: "string \<Rightarrow> string \<Rightarrow> error_record" where
  "list_error listId e = \<lparr> stage = ''fetchLeadsFromList'', err_listId = Some listId,
     err_leadId = None, err_message = e \<rparr>"

definition leads_error :: "string \<Rightarrow> error_record" where
  "leads_error e = \<lparr> stage = ''fetchLeads'', err_listId = None, err_leadId = None,
     err_message = e \<rparr>"

definition conversations_error :: "string \<Rightarrow> string \<Rightarrow> error_record" where
  "conversations_error leadId e = \<lparr> stage = ''fetchConversationsForLead'', err_listId = None,
     err_leadId = Some leadId, err_message = e \<rparr>"

text \<open>The message rows expected of the leads: all messages of a lead whose fetch succeeds.\<close>

definition rows_of_lead :: "url_parser \<Rightarrow> (string \<Rightarrow> (string + 'm list) option) \<Rightarrow> lead
    \<Rightarrow> (string \<times> string \<times> 'm) list" where
  "rows_of_lead P fetchConvs ld =
     (if lead_key ld = [] \<or> lead_liUrl P ld = [] then []
      else case fetchConvs (lead_key ld) of
             Some (Inr conv) \<Rightarrow> map (\<lambda>m. (lead_key ld, lead_liUrl P ld, m)) conv
           | _ \<Rightarrow> [])"

section \<open>Values used in the examples\<close>

definition blank_row :: people_row where
  "blank_row = \<lparr> first_name = [], last_name = [], full_name = [], job_title = [],
     company_name = [], company_domain = [], linkedin_url = [], heyreach_lead_id = [],
     lead_source = [], campaign_name = [], campaign_id = [], owner_email = [],
     lead_status = [], last_touch_at = [], last_reply_at = [] \<rparr>"

definition no_values :: current_values where
  "no_values = \<lparr> cur_full_name = None, cur_first_name = None, cur_last_name = None,
     cur_job_title = None, cur_company_name = None, cur_heyreach_lead_id = None \<rparr>"

text \<open>A Sink without memory that answers every request with status 200 and no data.\<close>

definition accepting_sink :: "unit sink" where
  "accepting_sink s req = (Http 200 NoData, s)"

text \<open>A Sink without memory that answers every request with status 500.\<close>

definition failing_sink :: "unit sink" where
  "failing_sink s req = (Http 500 NoData, s)"

definition fresh_world :: "'s \<Rightarrow> 's world" where
  "fresh_world s = \<lparr> sink_state = s, sent = [], id_by_url = [], record_cache = [],
     people_object_id = [], messages_object_id = [] \<rparr>"

definition ann_record :: attio_record where
  "ann_record = \<lparr> record_id = Some ''rec-ann'',
     rec_values = [(''name'', [Name ''Ann Lee'' ''Ann'' ''Lee'']),
                   (''job_title_5'', [Text ''Engineer'']),
                   (''linkedin_url_6'', [Text ''https://www.linkedin.com/in/ann-lee''])] \<rparr>"

definition live_config :: config where
  "live_config = \<lparr> AT_DRY_RUN = False, people_records_endpoint = True,
     AT_DISABLE_THREADS_UPSERT = False, AT_LIMIT_MESSAGES = 0 \<rparr>"

definition blank_correspondent :: correspondent where
  "blank_correspondent = \<lparr> cp_profileUrl = [], cp_profile_url = [], cp_firstName = [],
     cp_first_name = [], cp_lastName = [], cp_last_name = [], cp_position = [],
     cp_headline = [], cp_companyName = [] \<rparr>"

definition blank_conv :: conversation where
  "blank_conv = \<lparr> conv_id = [], lastMessageAt = [], correspondentProfile = blank_correspondent,
     account_emailAddress = [], campaignId = [], messages = [], totalMessages = None,
     lastMessageSender = [], lastMessageText = [] \<rparr>"




definition ann_conv :: conversation where
  "ann_conv = blank_conv\<lparr> conv_id := ''t-1'', lastMessageAt := ''2025-10-01T15:05:14.81Z'',
     correspondentProfile := blank_correspondent\<lparr> cp_profileUrl := ''https://www.linkedin.com/in/ann-lee'',
        cp_firstName := ''Ann'', cp_lastName := ''Lee'' \<rparr> \<rparr>"

definition ann_conv_again :: conversation where
  "ann_conv_again = blank_conv\<lparr> conv_id := ''t-2'', lastMessageAt := ''2025-10-02T08:00:00.00Z'',
     correspondentProfile := blank_correspondent\<lparr> cp_profileUrl := ''https://www.linkedin.com/in/ann-lee/?x=1'',
        cp_firstName := ''Anna'', cp_lastName := ''Leigh'' \<rparr> \<rparr>"

definition empty_sync :: sync_state where
  "empty_sync = \<lparr> last_sync = None, threads = [] \<rparr>"

text \<open>
  A Source of 237 items served in pages of 100, 100 and 37 at the offsets 0, 100 and
  200 (the items of a page are its number), with and without the total count; the same
  served by page number to the lead extractor; and a Source whose first page is empty
  and says that there is more.
\<close>

definition three_pages :: "nat \<Rightarrow> string + nat page" where
  "three_pages offset =
     Inr \<lparr> totalCount = 237,
           page_items = (if offset = 0 then replicate 100 1 else if offset = 100 then replicate 100 2
                         else if offset = 200 then replicate 37 3 else []) \<rparr>"

definition three_pages_no_total :: "nat \<Rightarrow> string + nat page" where
  "three_pages_no_total offset =
     Inr \<lparr> totalCount = 0,
           page_items = (if offset = 0 then replicate 100 1 else if offset = 100 then replicate 100 2
                         else if offset = 200 then replicate 37 3 else []) \<rparr>"

definition three_lead_pages :: "string \<Rightarrow> nat \<Rightarrow> string + nat cursor_page" where
  "three_lead_pages cursor page =
     Inr \<lparr> resp_items = (if page = 1 then replicate 100 1 else if page = 2 then replicate 100 2
                         else if page = 3 then replicate 37 3 else []),
           resp_cursor = [], resp_hasMore = False \<rparr>"

definition empty_but_more :: "string \<Rightarrow> nat \<Rightarrow> string + nat cursor_page" where
  "empty_but_more cursor page =
     Inr \<lparr> resp_items = [], resp_cursor = [], resp_hasMore = (page = 1) \<rparr>"

definition ann_message :: message where
  "ann_message = \<lparr> sender = ''ME'', createdAt = ''2025-10-01T15:05:14.81Z'', body = ''Hello Ann'',
     isInMail = False \<rparr>"



text \<open>
  An inbox run over one conversation whose correspondent is stored with another job
  title, against a Sink that answers every patch with status 500; and a run over two
  lists of which the first cannot be fetched, with two leads of which the first has no
  conversations to fetch.
\<close>

definition cto_conv :: conversation where
  "cto_conv = ann_conv\<lparr> correspondentProfile := (correspondentProfile ann_conv)\<lparr> cp_position := ''CTO'' \<rparr>,
     messages := [ann_message] \<rparr>"

definition one_conv_source :: "unit source" where
  "one_conv_source =
     \<lparr> fetchCampaignIds = Inr [], fetchLinkedInAccountIds = Inr [],
       fetchInboxConversations =
         (\<lambda>f limit offset. Inr \<lparr> totalCount = 1, page_items = (if offset = 0 then [cto_conv] else []) \<rparr>),
       leads_request = (\<lambda>listId cursor page. Inl ''No leads endpoint configured''),
       conversations_request = (\<lambda>leadId cursor page. Inl ''No conversations endpoint configured'') \<rparr>"

definition inbox_config :: extract_config where
  "inbox_config = \<lparr> LIST_IDS = [], INBOX_CAMPAIGN_IDS = [7], INBOX_ACCOUNT_IDS = [9],
     MAX_INBOX_BATCHES = 5, INBOX_MAX_PAGES = 1, INBOX_LIMIT = 100, FORCE_INBOX = True,
     conversations_url_inbox = True, PAGE_LIMIT = 100, MAX_LEADS = 0 \<rparr>"

text \<open>
  The person row of that conversation; the store of the Sink that stores people after a
  first run created the person, and after a second run patched the job title in; and
  the watermark that the runs write.
\<close>

definition cto_row :: people_row where
  "cto_row = conv_personRow simple_url cto_conv"





definition refusing_sink :: "unit sink" where
  "refusing_sink s req =
     (case req of
        QueryPerson u \<Rightarrow>
          (if u = ''https://www.linkedin.com/in/ann-lee''
           then (Http 200 (RecordList [ann_record]), s) else (Http 200 (RecordList []), s))
      | PatchPerson oid rid vs \<Rightarrow> (Http 500 NoData, s)
      | _ \<Rightarrow> (Http 200 NoData, s))"

text \<open>A Sink without memory that answers every query with status 500.\<close>

definition query_failing_sink :: "unit sink" where
  "query_failing_sink s req =
     (case req of
        QueryPerson u \<Rightarrow> (Http 500 NoData, s)
      | _ \<Rightarrow> (Http 200 NoData, s))"

definition lead_a :: lead where
  "lead_a = \<lparr> ld_leadId = ''a'', ld_id = [], ld_lead_id = [],
     ld_linkedinProfileUrl = ''https://www.linkedin.com/in/lead-a'', ld_linkedin_url = [],
     ld_profileUrl = [], ld_profile_url = [] \<rparr>"

definition lead_b :: lead where
  "lead_b = \<lparr> ld_leadId = [], ld_id = ''b'', ld_lead_id = [],
     ld_linkedinProfileUrl = [], ld_linkedin_url = ''https://www.linkedin.com/in/lead-b/'',
     ld_profileUrl = [], ld_profile_url = [] \<rparr>"

definition lists_config :: extract_config where
  "lists_config = inbox_config\<lparr> LIST_IDS := [''L1'', ''L2''], FORCE_INBOX := False,
     conversations_url_inbox := False \<rparr>"

definition failing_leads :: "string option \<Rightarrow> (string + lead list) option" where
  "failing_leads listId =
     (if listId = Some ''L1'' then Some (Inl ''Exhausted retries'') else Some (Inr [lead_a, lead_b]))"

definition failing_conversations :: "string \<Rightarrow> (string + nat list) option" where
  "failing_conversations leadId =
     (if leadId = ''a'' then Some (Inl ''Request failed with status 500'') else Some (Inr [1, 2]))"

definition lists_report :: report where
  "lists_report = \<lparr> rp_uniqueLeads = 2, rp_peopleRows = 2, rp_peopleSkipped = 0,
     rp_messageRows = 2, rp_threadRows = None, rp_skippedPeople = [],
     rp_errors = [list_error ''L1'' ''Exhausted retries'',
                  conversations_error ''a'' ''Request failed with status 500''] \<rparr>"

section \<open>Properties of the change set and of the patch\<close>

lemma keys_detectChanges:
  "fst ` set (detectChanges cur row) =
     {k. k = ''name'' \<and> newFull row \<noteq> [] \<and> newFull row \<noteq> currentFull cur}
   \<union> {k. k = ''job_title_5'' \<and> job_title row \<noteq> []
          \<and> Some (job_title row) \<noteq> cur_job_title cur}
   \<union> {k. k = ''company_name'' \<and> company_name row \<noteq> []
          \<and> Some (company_name row) \<noteq> cur_company_name cur}
   \<union> {k. k = ''heyreach_lead_id'' \<and> heyreach_lead_id row \<noteq> []
          \<and> falsy (cur_heyreach_lead_id cur)}"
  by (auto simp: detectChanges_def name_change_def job_title_change_def
      company_name_change_def heyreach_lead_id_change_def)

lemma sent_load_object_ids [simp]: "sent (load_object_ids items w) = sent w"
  by (induction items w rule: load_object_ids.induct) (auto simp: Let_def)

lemma sink_state_load_object_ids [simp]:
  "sink_state (load_object_ids items w) = sink_state w"
  by (induction items w rule: load_object_ids.induct) (auto simp: Let_def)

lemma sent_ensure:
  "sent (snd (ensureAttioObjectIdsLoaded sink w)) = sent w \<or>
   sent (snd (ensureAttioObjectIdsLoaded sink w)) = sent w @ [GetObjects]"
  by (auto simp: ensureAttioObjectIdsLoaded_def call_def
      split: prod.splits response.splits resp_body.splits)

lemma sent_updatePersonFields:
  "sent (snd (updatePersonFields sink rid chg w)) =
     (if chg = [] then sent w
      else case ensureAttioObjectIdsLoaded sink w of
             (Some e, w1) \<Rightarrow> sent w1
           | (None, w1) \<Rightarrow> sent w1 @ [PatchPerson (people_object_id w1) rid chg])"
  by (auto simp: updatePersonFields_def call_def
      split: prod.splits option.splits response.splits)

lemma patch_carries_changes:
  assumes "PatchPerson oid r vs \<in> set (sent (snd (updatePersonFields sink rid chg w)))"
  shows "PatchPerson oid r vs \<in> set (sent w) \<or> (vs = chg \<and> r = rid \<and> chg \<noteq> [])"
proof -
  obtain e w1 where E: "ensureAttioObjectIdsLoaded sink w = (e, w1)"
    by (cases "ensureAttioObjectIdsLoaded sink w")
  from sent_ensure [of sink w] E
  have S: "sent w1 = sent w \<or> sent w1 = sent w @ [GetObjects]" by simp
  show ?thesis
    using assms S by (auto simp: sent_updatePersonFields E split: if_splits option.splits)
qed

section \<open>Reconciliation of rows whose values are stored\<close>



lemma record_cache_load_object_ids [simp]:
  "record_cache (load_object_ids items w) = record_cache w"
  by (induction items w rule: load_object_ids.induct) (auto simp: Let_def)


section \<open>The loop over the conversations\<close>

lemma conv_liUrl_fallback:
  "cp_profileUrl (correspondentProfile conv) = [] \<Longrightarrow> cp_profile_url (correspondentProfile conv) = []
   \<Longrightarrow> conv_liUrl P conv = ''https://www.linkedin.com/in/conversation-'' @ conv_id conv"
  by (simp add: conv_liUrl_def or_else_def normalizeLinkedInUrl_string_def)

lemma conv_liUrl_nonempty: "conv_liUrl P conv \<noteq> []"
  by (simp add: conv_liUrl_def Let_def)

lemma conv_liUrl_nonempty' [simp]: "([] = conv_liUrl P conv) = False"
  using conv_liUrl_nonempty [of P conv] by auto




lemma peopleRows_process_conv:
  "peopleRows (process_conv P inc now st conv) =
     (if skip_unchanged inc (syncState st) conv \<or> conv_liUrl P conv \<in> set (peopleByUrl st)
      then peopleRows st
      else peopleRows st @ [conv_personRow P conv])"
  by (simp add: process_conv_def Let_def conv_liUrl_nonempty)

lemma peopleByUrl_process_conv:
  "peopleByUrl (process_conv P inc now st conv) =
     (if skip_unchanged inc (syncState st) conv \<or> conv_liUrl P conv \<in> set (peopleByUrl st)
      then peopleByUrl st
      else peopleByUrl st @ [conv_liUrl P conv])"
  by (simp add: process_conv_def Let_def conv_liUrl_nonempty)



lemma linkedin_url_conv_personRow [simp]:
  "linkedin_url (conv_personRow P conv) = conv_liUrl P conv"
  by (simp add: conv_personRow_def)

lemma keyed_process_conv: "keyed st \<Longrightarrow> keyed (process_conv P inc now st conv)"
  by (auto simp: keyed_def peopleRows_process_conv peopleByUrl_process_conv conv_liUrl_nonempty)

lemma keyed_process_convs: "keyed st \<Longrightarrow> keyed (process_convs P inc now st convs)"
  unfolding process_convs_def
  by (induction convs arbitrary: st) (auto simp: keyed_process_conv)

lemma prefix_process_conv: "prefix (peopleRows st) (peopleRows (process_conv P inc now st conv))"
  by (simp add: peopleRows_process_conv)

lemma prefix_process_convs: "prefix (peopleRows st) (peopleRows (process_convs P inc now st convs))"
  unfolding process_convs_def
proof (induction convs arbitrary: st)
  case Nil
  then show ?case by simp
next
  case (Cons c cs)
  have "prefix (peopleRows st) (peopleRows (process_conv P inc now st c))"
    by (rule prefix_process_conv)
  also have "prefix \<dots> (peopleRows (foldl (process_conv P inc now) (process_conv P inc now st c) cs))"
    by (rule Cons.IH)
  finally show ?case by simp
qed

lemma keep_first_set_cong:
  "set seen = set seen' \<Longrightarrow> keep_first key seen xs = keep_first key seen' xs"
proof (induction xs arbitrary: seen seen')
  case Nil
  then show ?case by simp
next
  case (Cons x xs)
  from Cons.prems have "set (seen @ [key x]) = set (seen' @ [key x])" by simp
  from Cons.IH [OF this] Cons.IH [OF Cons.prems] Cons.prems show ?case by simp
qed

lemma peopleRows_full_run:
  "peopleRows (process_convs P False now st convs)
     = peopleRows st @ map (conv_personRow P) (keep_first (conv_liUrl P) (peopleByUrl st) convs)
   \<and> peopleByUrl (process_convs P False now st convs)
     = peopleByUrl st @ map (conv_liUrl P) (keep_first (conv_liUrl P) (peopleByUrl st) convs)"
  unfolding process_convs_def
proof (induction convs arbitrary: st)
  case Nil
  then show ?case by simp
next
  case (Cons c cs)
  have ns: "\<not> skip_unchanged False (syncState st) c" by (simp add: skip_unchanged_def)
  show ?case
    using Cons.IH [of "process_conv P False now st c"] ns
    by (simp add: peopleRows_process_conv peopleByUrl_process_conv)
qed

lemma validate_people_keep_first:
  "\<forall>p \<in> set rows. linkedin_url p \<noteq> [] \<Longrightarrow>
     validate_people seen rows = keep_first linkedin_url seen rows"
proof (induction rows arbitrary: seen)
  case Nil
  then show ?case by simp
next
  case (Cons p ps)
  have "keep_first linkedin_url (linkedin_url p # seen) ps = keep_first linkedin_url (seen @ [linkedin_url p]) ps"
    by (rule keep_first_set_cong) auto
  with Cons show ?case by simp
qed

lemma keep_first_keys:
  "key ` set (keep_first key seen xs) \<inter> set seen = {}"
proof (induction xs arbitrary: seen)
  case Nil
  then show ?case by simp
next
  case (Cons x xs)
  from Cons.IH [of seen] Cons.IH [of "seen @ [key x]"] show ?case by auto
qed

lemma keep_first_distinct: "distinct (map key (keep_first key seen xs))"
proof (induction xs arbitrary: seen)
  case Nil
  then show ?case by simp
next
  case (Cons x xs)
  from keep_first_keys [of key "seen @ [key x]" xs]
  have "key x \<notin> key ` set (keep_first key (seen @ [key x]) xs)" by auto
  with Cons.IH [of seen] Cons.IH [of "seen @ [key x]"] show ?case by simp
qed

lemma keep_first_id:
  "distinct (map key xs) \<Longrightarrow> key ` set xs \<inter> set seen = {} \<Longrightarrow> keep_first key seen xs = xs"
proof (induction xs arbitrary: seen)
  case Nil
  then show ?case by simp
next
  case (Cons x xs)
  from Cons.prems have "distinct (map key xs)" and "key ` set xs \<inter> set (seen @ [key x]) = {}"
    and "key x \<notin> set seen"
    by auto
  with Cons.IH [of "seen @ [key x]"] show ?case by simp
qed

section \<open>The change set: write-once lead id, idempotence and minimality\<close>

lemmas example_defs =
  blank_row_def no_values_def accepting_sink_def failing_sink_def fresh_world_def
  detectChanges_def name_change_def job_title_change_def company_name_change_def
  heyreach_lead_id_change_def newFull_def currentFull_def or_else_def or_empty_def
  falsy_def trim_def is_space_def updatePersonFields_def ensureAttioObjectIdsLoaded_def
  call_def ok_status_def

text \<open>
  C5. The change set holds the key \<open>heyreach_lead_id\<close> exactly when the stored
  value is empty and the candidate value is not, and then with the candidate value.
  When the stored value is not empty, no patch that \<open>updatePersonFields\<close> issues
  for the change set carries the key: the stored id is not overwritten.
\<close>

theorem heyreach_lead_id_write_once:
  "(''heyreach_lead_id'' \<in> fst ` set (detectChanges cur row)
      \<longleftrightarrow> falsy (cur_heyreach_lead_id cur) \<and> heyreach_lead_id row \<noteq> [])
   \<and> (''heyreach_lead_id'' \<in> fst ` set (detectChanges cur row)
      \<longrightarrow> map_of (detectChanges cur row) ''heyreach_lead_id'' = Some (Text (heyreach_lead_id row)))
   \<and> (\<not> falsy (cur_heyreach_lead_id cur)
      \<longrightarrow> PatchPerson oid r vs
            \<in> set (sent (snd (updatePersonFields sink rid (detectChanges cur row) w)))
      \<longrightarrow> PatchPerson oid r vs \<notin> set (sent w)
      \<longrightarrow> ''heyreach_lead_id'' \<notin> fst ` set vs)"
proof (intro conjI impI)
  show "''heyreach_lead_id'' \<in> fst ` set (detectChanges cur row)
      \<longleftrightarrow> falsy (cur_heyreach_lead_id cur) \<and> heyreach_lead_id row \<noteq> []"
    by (auto simp: keys_detectChanges)
next
  assume "''heyreach_lead_id'' \<in> fst ` set (detectChanges cur row)"
  then have "falsy (cur_heyreach_lead_id cur) \<and> heyreach_lead_id row \<noteq> []"
    by (auto simp: keys_detectChanges)
  then show "map_of (detectChanges cur row) ''heyreach_lead_id'' = Some (Text (heyreach_lead_id row))"
    by (simp add: detectChanges_def name_change_def job_title_change_def
        company_name_change_def heyreach_lead_id_change_def)
next
  assume stored: "\<not> falsy (cur_heyreach_lead_id cur)"
    and new: "PatchPerson oid r vs
            \<in> set (sent (snd (updatePersonFields sink rid (detectChanges cur row) w)))"
    and old: "PatchPerson oid r vs \<notin> set (sent w)"
  from patch_carries_changes [OF new] old have "vs = detectChanges cur row" by simp
  with stored show "''heyreach_lead_id'' \<notin> fst ` set vs"
    by (simp add: keys_detectChanges)
qed

theorem heyreach_lead_id_write_once_witness:
  "\<not> falsy (cur_heyreach_lead_id (no_values\<lparr>cur_heyreach_lead_id := Some ''L1''\<rparr>))
   \<and> PatchPerson [] ''rec1'' [(''job_title_5'', Text ''CTO'')]
        \<in> set (sent (snd (updatePersonFields accepting_sink ''rec1''
             (detectChanges (no_values\<lparr>cur_heyreach_lead_id := Some ''L1''\<rparr>)
                (blank_row\<lparr>heyreach_lead_id := ''L2'', job_title := ''CTO''\<rparr>))
             (fresh_world ()))))
   \<and> PatchPerson [] ''rec1'' [(''job_title_5'', Text ''CTO'')] \<notin> set (sent (fresh_world ()))
   \<and> ''heyreach_lead_id'' \<notin> fst ` set [(''job_title_5'', Text ''CTO'')]
   \<and> ''heyreach_lead_id'' \<in> fst ` set (detectChanges no_values (blank_row\<lparr>heyreach_lead_id := ''L2''\<rparr>))
   \<and> map_of (detectChanges no_values (blank_row\<lparr>heyreach_lead_id := ''L2''\<rparr>)) ''heyreach_lead_id''
        = Some (Text ''L2'')"
  using heyreach_lead_id_write_once [of "no_values\<lparr>cur_heyreach_lead_id := Some ''L1''\<rparr>"
      "blank_row\<lparr>heyreach_lead_id := ''L2'', job_title := ''CTO''\<rparr>"
      "[]" "''rec1''" "[(''job_title_5'', Text ''CTO'')]" accepting_sink "''rec1''" "fresh_world ()"]
    heyreach_lead_id_write_once [of no_values "blank_row\<lparr>heyreach_lead_id := ''L2''\<rparr>"]
  by (simp add: example_defs)

























text \<open>
  C3, as stated, fails: the candidate lead id \<open>L2\<close> is not empty and differs from
  the stored \<open>L1\<close>, and the change set does not hold the key.
\<close>

theorem diff_minimality_counterexample:
  "heyreach_lead_id (blank_row\<lparr>heyreach_lead_id := ''L2''\<rparr>) \<noteq> []
   \<and> Some (heyreach_lead_id (blank_row\<lparr>heyreach_lead_id := ''L2''\<rparr>))
        \<noteq> cur_heyreach_lead_id (no_values\<lparr>cur_heyreach_lead_id := Some ''L1''\<rparr>)
   \<and> ''heyreach_lead_id'' \<notin> fst ` set (detectChanges
        (no_values\<lparr>cur_heyreach_lead_id := Some ''L1''\<rparr>)
        (blank_row\<lparr>heyreach_lead_id := ''L2''\<rparr>))"
  by (simp add: example_defs)

text \<open>
  C3, amended. The change set holds the name, job title and company name exactly when
  the candidate value is not empty and differs from the stored one (names compared by
  the full name), and the lead id exactly when the candidate is not empty and the
  stored value is empty; no key occurs twice. A patch that \<open>updatePersonFields\<close>
  issues carries exactly the change set, and one is issued whenever the change set is
  not empty and the object ids could be loaded. With the title \<open>Engineer\<close> stored
  and the fresh title \<open>Engineer\<close> and company \<open>Acme\<close>, the change set is the
  company alone.
\<close>

theorem change_set_minimal:
  "fst ` set (detectChanges cur row) =
       {k. k = ''name'' \<and> newFull row \<noteq> [] \<and> newFull row \<noteq> currentFull cur}
     \<union> {k. k = ''job_title_5'' \<and> job_title row \<noteq> []
            \<and> Some (job_title row) \<noteq> cur_job_title cur}
     \<union> {k. k = ''company_name'' \<and> company_name row \<noteq> []
            \<and> Some (company_name row) \<noteq> cur_company_name cur}
     \<union> {k. k = ''heyreach_lead_id'' \<and> heyreach_lead_id row \<noteq> []
            \<and> falsy (cur_heyreach_lead_id cur)}
   \<and> distinct (map fst (detectChanges cur row))
   \<and> (PatchPerson oid r vs
          \<in> set (sent (snd (updatePersonFields sink rid (detectChanges cur row) w)))
        \<longrightarrow> PatchPerson oid r vs \<notin> set (sent w)
        \<longrightarrow> vs = detectChanges cur row \<and> r = rid)
   \<and> (detectChanges cur row \<noteq> [] \<longrightarrow> fst (ensureAttioObjectIdsLoaded sink w) = None
        \<longrightarrow> (\<exists>oid. PatchPerson oid rid (detectChanges cur row)
               \<in> set (sent (snd (updatePersonFields sink rid (detectChanges cur row) w)))))
   \<and> detectChanges (no_values\<lparr>cur_job_title := Some ''Engineer''\<rparr>)
        (blank_row\<lparr>job_title := ''Engineer'', company_name := ''Acme''\<rparr>)
       = [(''company_name'', Text ''Acme'')]"
proof (intro conjI impI)
  show "fst ` set (detectChanges cur row) =
       {k. k = ''name'' \<and> newFull row \<noteq> [] \<and> newFull row \<noteq> currentFull cur}
     \<union> {k. k = ''job_title_5'' \<and> job_title row \<noteq> []
            \<and> Some (job_title row) \<noteq> cur_job_title cur}
     \<union> {k. k = ''company_name'' \<and> company_name row \<noteq> []
            \<and> Some (company_name row) \<noteq> cur_company_name cur}
     \<union> {k. k = ''heyreach_lead_id'' \<and> heyreach_lead_id row \<noteq> []
            \<and> falsy (cur_heyreach_lead_id cur)}"
    by (rule keys_detectChanges)
next
  show "distinct (map fst (detectChanges cur row))"
    by (simp add: detectChanges_def name_change_def job_title_change_def
        company_name_change_def heyreach_lead_id_change_def)
next
  assume "PatchPerson oid r vs
          \<in> set (sent (snd (updatePersonFields sink rid (detectChanges cur row) w)))"
    and "PatchPerson oid r vs \<notin> set (sent w)"
  then show "vs = detectChanges cur row" and "r = rid"
    using patch_carries_changes by blast+
next
  assume ne: "detectChanges cur row \<noteq> []"
    and ok: "fst (ensureAttioObjectIdsLoaded sink w) = None"
  obtain w1 where "ensureAttioObjectIdsLoaded sink w = (None, w1)"
    using ok by (cases "ensureAttioObjectIdsLoaded sink w") simp
  with ne have "PatchPerson (people_object_id w1) rid (detectChanges cur row)
               \<in> set (sent (snd (updatePersonFields sink rid (detectChanges cur row) w)))"
    by (simp add: sent_updatePersonFields)
  then show "\<exists>oid. PatchPerson oid rid (detectChanges cur row)
               \<in> set (sent (snd (updatePersonFields sink rid (detectChanges cur row) w)))" ..
next
  show "detectChanges (no_values\<lparr>cur_job_title := Some ''Engineer''\<rparr>)
        (blank_row\<lparr>job_title := ''Engineer'', company_name := ''Acme''\<rparr>)
       = [(''company_name'', Text ''Acme'')]"
    by (simp add: example_defs)
qed

theorem change_set_minimal_witness:
  "PatchPerson [] ''rec1'' [(''company_name'', Text ''Acme'')]
      \<in> set (sent (snd (updatePersonFields accepting_sink ''rec1''
           (detectChanges (no_values\<lparr>cur_job_title := Some ''Engineer''\<rparr>)
              (blank_row\<lparr>job_title := ''Engineer'', company_name := ''Acme''\<rparr>))
           (fresh_world ()))))
   \<and> PatchPerson [] ''rec1'' [(''company_name'', Text ''Acme'')] \<notin> set (sent (fresh_world ()))
   \<and> [(''company_name'', Text ''Acme'')]
       = detectChanges (no_values\<lparr>cur_job_title := Some ''Engineer''\<rparr>)
              (blank_row\<lparr>job_title := ''Engineer'', company_name := ''Acme''\<rparr>)
   \<and> fst (ensureAttioObjectIdsLoaded accepting_sink (fresh_world ())) = None
   \<and> fst ` set (detectChanges (no_values\<lparr>cur_job_title := Some ''Engineer''\<rparr>)
              (blank_row\<lparr>job_title := ''Engineer'', company_name := ''Acme''\<rparr>))
       = {''company_name''}"
  using change_set_minimal [of "no_values\<lparr>cur_job_title := Some ''Engineer''\<rparr>"
      "blank_row\<lparr>job_title := ''Engineer'', company_name := ''Acme''\<rparr>"
      "[]" "''rec1''" "[(''company_name'', Text ''Acme'')]" accepting_sink "''rec1''"
      "fresh_world ()"]
  by (simp add: example_defs)

section \<open>The identity key, the watermark and the first occurrence of a key\<close>

text \<open>
  C8. For a conversation whose correspondent has no profile URL, the identity key is the
  fixed prefix \<open>https://www.linkedin.com/in/conversation-\<close> followed by the
  conversation id, whatever the parser, the watermark and the run; the person row and
  the thread row carry it. For the id \<open>t-42\<close> it is
  \<open>https://www.linkedin.com/in/conversation-t-42\<close>.
\<close>

theorem fallback_identity_key:
  "(cp_profileUrl (correspondentProfile conv) = [] \<longrightarrow> cp_profile_url (correspondentProfile conv) = []
      \<longrightarrow> conv_liUrl P conv = ''https://www.linkedin.com/in/conversation-'' @ conv_id conv
        \<and> linkedin_url (conv_personRow P conv)
            = ''https://www.linkedin.com/in/conversation-'' @ conv_id conv
        \<and> t_person_match_linkedin_url (conv_threadRow P conv)
            = ''https://www.linkedin.com/in/conversation-'' @ conv_id conv)
   \<and> conv_liUrl P (blank_conv\<lparr>conv_id := ''t-42''\<rparr>)
       = ''https://www.linkedin.com/in/conversation-t-42''"
  by (simp add: conv_liUrl_fallback conv_threadRow_def Let_def blank_conv_def blank_correspondent_def)

theorem fallback_identity_key_witness:
  "cp_profileUrl (correspondentProfile (blank_conv\<lparr>conv_id := ''t-42'', lastMessageAt := ''2025-10-01''\<rparr>)) = []
   \<and> cp_profile_url (correspondentProfile (blank_conv\<lparr>conv_id := ''t-42'', lastMessageAt := ''2025-10-01''\<rparr>)) = []
   \<and> conv_liUrl simple_url (blank_conv\<lparr>conv_id := ''t-42'', lastMessageAt := ''2025-10-01''\<rparr>)
       = ''https://www.linkedin.com/in/conversation-t-42''
   \<and> linkedin_url (conv_personRow simple_url (blank_conv\<lparr>conv_id := ''t-42'', lastMessageAt := ''2025-10-01''\<rparr>))
       = ''https://www.linkedin.com/in/conversation-t-42''
   \<and> map linkedin_url (peopleRows (process_conv simple_url False ''now''
         (start_state \<lparr> last_sync = None, threads = [] \<rparr>)
         (blank_conv\<lparr>conv_id := ''t-42'', lastMessageAt := ''2025-10-01''\<rparr>)))
       = [''https://www.linkedin.com/in/conversation-t-42'']"
  using fallback_identity_key [of "blank_conv\<lparr>conv_id := ''t-42'', lastMessageAt := ''2025-10-01''\<rparr>" simple_url]
  by (simp add: blank_conv_def blank_correspondent_def peopleRows_process_conv skip_unchanged_def
      start_state_def)



lemma validate_people_keys:
  "linkedin_url ` set (validate_people seen rows) \<inter> set seen = {}"
proof (induction rows arbitrary: seen)
  case Nil
  then show ?case by simp
next
  case (Cons p ps)
  from Cons.IH [of seen] Cons.IH [of "linkedin_url p # seen"] show ?case by auto
qed

lemma validate_people_distinct: "distinct (map linkedin_url (validate_people seen rows))"
proof (induction rows arbitrary: seen)
  case Nil
  then show ?case by simp
next
  case (Cons p ps)
  from validate_people_keys [of "linkedin_url p # seen" ps]
  have "linkedin_url p \<notin> linkedin_url ` set (validate_people (linkedin_url p # seen) ps)" by auto
  with Cons.IH [of seen] Cons.IH [of "linkedin_url p # seen"] show ?case by simp
qed

lemma keyed_start: "keyed (start_state ss)"
  by (simp add: keyed_def start_state_def)

lemma validate_people_run:
  assumes "keyed st"
  shows "validate_people [] (peopleRows st) = peopleRows st"
proof -
  from assms have k: "map linkedin_url (peopleRows st) = peopleByUrl st"
    and d: "distinct (peopleByUrl st)" and n: "[] \<notin> set (peopleByUrl st)"
    by (simp_all add: keyed_def)
  from k n have ne: "\<forall>p \<in> set (peopleRows st). linkedin_url p \<noteq> []"
    by (metis imageI list.set_map)
  from k d have dd: "distinct (map linkedin_url (peopleRows st))" by simp
  have "validate_people [] (peopleRows st) = keep_first linkedin_url [] (peopleRows st)"
    using ne by (rule validate_people_keep_first)
  also have "\<dots> = peopleRows st"
    using dd by (simp add: keep_first_id)
  finally show ?thesis .
qed

text \<open>
  C7. The people rows of a run have pairwise distinct identity keys. A conversation
  whose key has been seen leaves the people rows as they are; one whose key is new (and
  that is not skipped by the watermark) adds the row built from itself and marks the
  key; rows once emitted stay, in their place. Without the watermark the people rows
  are the rows built from the first occurrence of every key, in order. The guard run
  after extraction, \<open>validate_people\<close>, gives distinct keys on any rows and
  changes nothing on the rows of a run. None of this consults the Sink.
\<close>

theorem first_occurrence_wins:
  "distinct (map linkedin_url (peopleRows (process_convs P inc now (start_state ss) convs)))
   \<and> (conv_liUrl P conv \<in> set (peopleByUrl st)
        \<longrightarrow> peopleRows (process_conv P inc now st conv) = peopleRows st)
   \<and> (conv_liUrl P conv \<notin> set (peopleByUrl st) \<longrightarrow> \<not> skip_unchanged inc (syncState st) conv
        \<longrightarrow> peopleRows (process_conv P inc now st conv) = peopleRows st @ [conv_personRow P conv]
          \<and> conv_liUrl P conv \<in> set (peopleByUrl (process_conv P inc now st conv)))
   \<and> prefix (peopleRows st) (peopleRows (process_convs P inc now st convs))
   \<and> peopleRows (process_convs P False now (start_state ss) convs)
       = map (conv_personRow P) (keep_first (conv_liUrl P) [] convs)
   \<and> validate_people [] (peopleRows (process_convs P inc now (start_state ss) convs))
       = peopleRows (process_convs P inc now (start_state ss) convs)
   \<and> distinct (map linkedin_url (validate_people [] rows))"
proof (intro conjI impI)
  have k: "keyed (process_convs P inc now (start_state ss) convs)"
    by (rule keyed_process_convs [OF keyed_start])
  then show "distinct (map linkedin_url (peopleRows (process_convs P inc now (start_state ss) convs)))"
    by (simp add: keyed_def)
  from k show "validate_people [] (peopleRows (process_convs P inc now (start_state ss) convs))
       = peopleRows (process_convs P inc now (start_state ss) convs)"
    by (rule validate_people_run)
next
  assume "conv_liUrl P conv \<in> set (peopleByUrl st)"
  then show "peopleRows (process_conv P inc now st conv) = peopleRows st"
    by (simp add: peopleRows_process_conv)
next
  assume a: "conv_liUrl P conv \<notin> set (peopleByUrl st)" "\<not> skip_unchanged inc (syncState st) conv"
  then show "peopleRows (process_conv P inc now st conv) = peopleRows st @ [conv_personRow P conv]"
    by (simp add: peopleRows_process_conv)
  from a show "conv_liUrl P conv \<in> set (peopleByUrl (process_conv P inc now st conv))"
    by (simp add: peopleByUrl_process_conv)
next
  show "prefix (peopleRows st) (peopleRows (process_convs P inc now st convs))"
    by (rule prefix_process_convs)
next
  show "peopleRows (process_convs P False now (start_state ss) convs)
       = map (conv_personRow P) (keep_first (conv_liUrl P) [] convs)"
    using peopleRows_full_run [of P now "start_state ss" convs]
    by (simp add: start_state_def)
next
  show "distinct (map linkedin_url (validate_people [] rows))"
    by (rule validate_people_distinct)
qed

theorem first_occurrence_wins_witness:
  "conv_liUrl simple_url ann_conv \<notin> set (peopleByUrl (start_state empty_sync))
   \<and> \<not> skip_unchanged False (syncState (start_state empty_sync)) ann_conv
   \<and> peopleRows (process_conv simple_url False ''now'' (start_state empty_sync) ann_conv)
       = peopleRows (start_state empty_sync) @ [conv_personRow simple_url ann_conv]
   \<and> conv_liUrl simple_url ann_conv_again
       \<in> set (peopleByUrl (process_conv simple_url False ''now'' (start_state empty_sync) ann_conv))
   \<and> peopleRows (process_conv simple_url False ''now''
         (process_conv simple_url False ''now'' (start_state empty_sync) ann_conv) ann_conv_again)
       = peopleRows (process_conv simple_url False ''now'' (start_state empty_sync) ann_conv)
   \<and> map first_name (peopleRows (process_convs simple_url False ''now'' (start_state empty_sync)
         [ann_conv, ann_conv_again])) = [''Ann'']"
proof -
  have h1: "conv_liUrl simple_url ann_conv \<notin> set (peopleByUrl (start_state empty_sync))"
    by (simp add: start_state_def)
  have h2: "\<not> skip_unchanged False (syncState (start_state empty_sync)) ann_conv"
    by (simp add: skip_unchanged_def)
  have k1: "conv_liUrl simple_url ann_conv = ''https://www.linkedin.com/in/ann-lee''"
    by code_simp
  have k2: "conv_liUrl simple_url ann_conv_again = ''https://www.linkedin.com/in/ann-lee''"
    by code_simp
  note T1 = first_occurrence_wins [of simple_url False "''now''" empty_sync
      "[ann_conv, ann_conv_again]" ann_conv "start_state empty_sync" "[]"]
  from T1 h1 h2
  have a: "peopleRows (process_conv simple_url False ''now'' (start_state empty_sync) ann_conv)
       = peopleRows (start_state empty_sync) @ [conv_personRow simple_url ann_conv]"
    and b: "conv_liUrl simple_url ann_conv
       \<in> set (peopleByUrl (process_conv simple_url False ''now'' (start_state empty_sync) ann_conv))"
    by blast+
  from b have h3: "conv_liUrl simple_url ann_conv_again
       \<in> set (peopleByUrl (process_conv simple_url False ''now'' (start_state empty_sync) ann_conv))"
    by (simp add: k1 k2)
  note T2 = first_occurrence_wins [of simple_url False "''now''" empty_sync
      "[ann_conv, ann_conv_again]" ann_conv_again
      "process_conv simple_url False ''now'' (start_state empty_sync) ann_conv" "[]"]
  from T2 h3
  have c: "peopleRows (process_conv simple_url False ''now''
         (process_conv simple_url False ''now'' (start_state empty_sync) ann_conv) ann_conv_again)
       = peopleRows (process_conv simple_url False ''now'' (start_state empty_sync) ann_conv)"
    by blast
  have fn: "first_name (conv_personRow simple_url ann_conv) = ''Ann''"
    by (simp add: conv_personRow_def buildPeopleRowFromCorrespondent_def ann_conv_def
        blank_conv_def blank_correspondent_def or_else_def)
  have d: "map first_name (peopleRows (process_convs simple_url False ''now'' (start_state empty_sync)
         [ann_conv, ann_conv_again])) = [''Ann'']"
    using a c fn by (simp add: process_convs_def start_state_def)
  from h1 h2 a h3 c d show ?thesis by blast
qed

section \<open>The normalisation of identity keys\<close>

















section \<open>Pagination\<close>

lemma inbox_empty:
  "fetch offset = Inr pg \<Longrightarrow> page_items pg = [] \<Longrightarrow>
     inbox_pages fetch maxp page offset = Inr [(offset, [])]"
  by (subst inbox_pages.simps) simp

lemma inbox_total:
  "fetch offset = Inr pg \<Longrightarrow> page_items pg \<noteq> [] \<Longrightarrow> offset + length (page_items pg) \<ge> totalCount pg \<Longrightarrow>
     inbox_pages fetch maxp page offset = Inr [(offset, page_items pg)]"
  by (subst inbox_pages.simps) simp

lemma inbox_cap:
  "fetch offset = Inr pg \<Longrightarrow> page_items pg \<noteq> [] \<Longrightarrow> int page + 1 \<ge> maxp \<Longrightarrow>
     inbox_pages fetch maxp page offset = Inr [(offset, page_items pg)]"
  by (subst inbox_pages.simps) simp

lemma inbox_error:
  "fetch offset = Inl e \<Longrightarrow> inbox_pages fetch maxp page offset = Inl e"
  by (subst inbox_pages.simps) simp

lemma inbox_continue:
  "fetch offset = Inr pg \<Longrightarrow> page_items pg \<noteq> [] \<Longrightarrow> offset + length (page_items pg) < totalCount pg
    \<Longrightarrow> int page + 1 < maxp \<Longrightarrow>
     inbox_pages fetch maxp page offset =
       (case inbox_pages fetch maxp (page + 1) (offset + length (page_items pg)) of
          Inl e \<Rightarrow> Inl e | Inr rest \<Rightarrow> Inr ((offset, page_items pg) # rest))"
  by (subst inbox_pages.simps) simp

lemma inbox_requests_bound:
  "inbox_pages fetch maxp page offset = Inr rs \<Longrightarrow>
     length rs \<ge> 1 \<and> int (length rs) \<le> max 1 (maxp - int page)"
proof (induction fetch maxp page offset arbitrary: rs rule: inbox_pages.induct)
  case (1 fetch maxp page offset)
  show ?case
  proof (cases "fetch offset")
    case (Inl e)
    with "1.prems" show ?thesis by (simp add: inbox_error)
  next
    case (Inr pg)
    show ?thesis
    proof (cases "page_items pg = [] \<or> offset + length (page_items pg) \<ge> totalCount pg \<or> int page + 1 \<ge> maxp")
      case True
      with Inr "1.prems" have "length rs = 1"
        by (subst (asm) inbox_pages.simps) (auto split: if_splits)
      then show ?thesis by simp
    next
      case False
      then have c: "page_items pg \<noteq> []" "offset + length (page_items pg) < totalCount pg"
        "int page + 1 < maxp" by auto
      from inbox_continue [of fetch offset pg page maxp, OF Inr c] "1.prems"
      obtain rest where r: "inbox_pages fetch maxp (page + 1) (offset + length (page_items pg)) = Inr rest"
        and rs: "rs = (offset, page_items pg) # rest"
        by (auto split: sum.splits)
      from "1.IH" [OF Inr _ _ _ r] c
      have "length rest \<ge> 1 \<and> int (length rest) \<le> max 1 (maxp - int (page + 1))" by simp
      with rs c show ?thesis by auto
    qed
  qed
qed

lemma three_pages_run:
  "3 \<le> maxp \<Longrightarrow> inbox_pages three_pages maxp 0 0 = Inr [(0, replicate 100 1), (100, replicate 100 2), (200, replicate 37 3)]"
  apply (subst inbox_pages.simps)
  apply (simp add: three_pages_def)
  apply (subst inbox_pages.simps)
  apply (simp add: three_pages_def)
  apply (subst inbox_pages.simps)
  apply (simp add: three_pages_def)
  done

lemma three_pages_capped:
  "inbox_pages three_pages 1 0 0 = Inr [(0, replicate 100 1)]"
  by (subst inbox_pages.simps) (simp add: three_pages_def)

lemma three_pages_no_total_run:
  "inbox_pages three_pages_no_total maxp 0 0 = Inr [(0, replicate 100 1)]"
  by (subst inbox_pages.simps) (simp add: three_pages_no_total_def)

lemma three_lead_pages_run:
  "fetchLeadsFromList three_lead_pages 100 = Some (Inr ([([], 1), ([], 2), ([], 3)], replicate 100 1 @ replicate 100 2 @ replicate 37 3))"
  unfolding fetchLeadsFromList_def
  apply (subst page_loop.simps)
  apply (simp add: three_lead_pages_def)
  apply (subst page_loop.simps)
  apply (simp add: three_lead_pages_def)
  apply (subst page_loop.simps)
  apply (simp add: three_lead_pages_def)
  done

lemma empty_but_more_run:
  "fetchLeadsFromList empty_but_more 100 = Some (Inr ([([], 1), ([], 2)], []))"
  unfolding fetchLeadsFromList_def
  apply (subst page_loop.simps)
  apply (simp add: empty_but_more_def)
  apply (subst page_loop.simps)
  apply (simp add: empty_but_more_def)
  done

lemma page_loop_stop:
  "lfetch cursor page = Inr lpg \<Longrightarrow> resp_cursor lpg = [] \<Longrightarrow> \<not> resp_hasMore lpg
   \<Longrightarrow> int (length (resp_items lpg)) \<noteq> limit
   \<Longrightarrow> page_loop lfetch limit cursor page reqs res
         = Some (Inr (reqs @ [(cursor, page)], res @ resp_items lpg))"
  by (subst page_loop.simps) simp

lemma page_loop_full_page:
  "lfetch cursor page = Inr lpg \<Longrightarrow> resp_cursor lpg = [] \<Longrightarrow> \<not> resp_hasMore lpg
   \<Longrightarrow> int (length (resp_items lpg)) = limit
   \<Longrightarrow> page_loop lfetch limit cursor page reqs res
         = page_loop lfetch limit [] (page + 1) (reqs @ [(cursor, page)]) (res @ resp_items lpg)"
  by (subst page_loop.simps) simp

text \<open>
  C6, as stated, fails. With the page cap \<open>INBOX_MAX_PAGES = 1\<close>, its default,
  the inbox extractor issues one request on the Source of 100, 100 and 37 items and
  yields 100 items; it does the same, whatever the cap, when the Source gives no total
  count. The lead extractor goes on after an empty page that says \<open>hasMore\<close>.
\<close>

theorem pagination_counterexample:
  "inbox_pages three_pages 1 0 0 = Inr [(0, replicate 100 1)]
   \<and> inbox_pages three_pages_no_total 3 0 0 = Inr [(0, replicate 100 1)]
   \<and> fetchLeadsFromList empty_but_more 100 = Some (Inr ([([], 1), ([], 2)], []))"
  by (simp add: three_pages_capped three_pages_no_total_run empty_but_more_run)

text \<open>
  C6, amended. The loop over the pages of a filter set stops at an empty page, or once
  the offset advanced by the returned count reaches the total count given (a missing
  total is 0, so the first page is then the last), or when the page cap is reached;
  otherwise it requests the next offset. It always returns, after at least one and at
  most \<open>max 1 (INBOX_MAX_PAGES - page)\<close> requests. On the Source of 100, 100 and
  37 items with total 237 and a cap of at least 3 it issues exactly the requests at
  offsets 0, 100 and 200 and yields 237 items. The lead extractor, which has no total,
  stops at a page without cursor and without \<open>hasMore\<close> whose count differs from
  the page size; on the same Source served by page number with page size 100 it issues
  3 requests and yields 237 items.
\<close>

theorem pagination_stops:
  "(fetch offset = Inr pg \<longrightarrow> page_items pg = []
      \<longrightarrow> inbox_pages fetch maxp page offset = Inr [(offset, [])])
   \<and> (fetch offset = Inr pg \<longrightarrow> page_items pg \<noteq> []
      \<longrightarrow> offset + length (page_items pg) \<ge> totalCount pg
      \<longrightarrow> inbox_pages fetch maxp page offset = Inr [(offset, page_items pg)])
   \<and> (fetch offset = Inr pg \<longrightarrow> page_items pg \<noteq> [] \<longrightarrow> int page + 1 \<ge> maxp
      \<longrightarrow> inbox_pages fetch maxp page offset = Inr [(offset, page_items pg)])
   \<and> (fetch offset = Inr pg \<longrightarrow> page_items pg \<noteq> []
      \<longrightarrow> offset + length (page_items pg) < totalCount pg \<longrightarrow> int page + 1 < maxp
      \<longrightarrow> inbox_pages fetch maxp page offset =
           (case inbox_pages fetch maxp (page + 1) (offset + length (page_items pg)) of
              Inl e \<Rightarrow> Inl e | Inr rest \<Rightarrow> Inr ((offset, page_items pg) # rest)))
   \<and> (inbox_pages fetch maxp page offset = Inr rs
      \<longrightarrow> 1 \<le> length rs \<and> int (length rs) \<le> max 1 (maxp - int page))
   \<and> (3 \<le> maxp
      \<longrightarrow> inbox_pages three_pages maxp 0 0
            = Inr [(0, replicate 100 1), (100, replicate 100 2), (200, replicate 37 3)]
        \<and> length (concat (map snd [(0::nat, replicate 100 (1::nat)), (100, replicate 100 2),
                                      (200, replicate 37 3)])) = 237)
   \<and> (lfetch cursor lpage = Inr lpg \<longrightarrow> resp_cursor lpg = [] \<longrightarrow> \<not> resp_hasMore lpg
      \<longrightarrow> int (length (resp_items lpg)) \<noteq> limit
      \<longrightarrow> page_loop lfetch limit cursor lpage reqs res
            = Some (Inr (reqs @ [(cursor, lpage)], res @ resp_items lpg)))
   \<and> fetchLeadsFromList three_lead_pages 100
       = Some (Inr ([([], 1), ([], 2), ([], 3)], replicate 100 1 @ replicate 100 2 @ replicate 37 3))
   \<and> length (replicate 100 (1::nat) @ replicate 100 2 @ replicate 37 3) = 237"
proof (intro conjI impI)
  assume "inbox_pages fetch maxp page offset = Inr rs"
  from inbox_requests_bound [OF this]
  show "1 \<le> length rs" and "int (length rs) \<le> max 1 (maxp - int page)" by simp_all
qed (simp_all add: inbox_empty inbox_total inbox_cap inbox_continue three_pages_run
      page_loop_stop three_lead_pages_run)

theorem pagination_stops_witness:
  "three_pages 200 = Inr \<lparr> totalCount = 237, page_items = replicate 37 3 \<rparr>
   \<and> page_items \<lparr> totalCount = 237, page_items = replicate 37 (3::nat) \<rparr> \<noteq> []
   \<and> 200 + length (page_items \<lparr> totalCount = 237, page_items = replicate 37 (3::nat) \<rparr>)
        \<ge> totalCount \<lparr> totalCount = 237, page_items = replicate 37 (3::nat) \<rparr>
   \<and> inbox_pages three_pages 3 2 200 = Inr [(200, replicate 37 3)]
   \<and> (3::int) \<le> 3
   \<and> inbox_pages three_pages 3 0 0
       = Inr [(0, replicate 100 1), (100, replicate 100 2), (200, replicate 37 3)]
   \<and> 1 \<le> length [(0::nat, replicate 100 (1::nat)), (100, replicate 100 2), (200, replicate 37 3)]
   \<and> int (length [(0::nat, replicate 100 (1::nat)), (100, replicate 100 2), (200, replicate 37 3)])
        \<le> max 1 (3 - int 0)
   \<and> three_lead_pages [] 3 = Inr \<lparr> resp_items = replicate 37 3, resp_cursor = [], resp_hasMore = False \<rparr>
   \<and> page_loop three_lead_pages 100 [] 3 [([], 1), ([], 2)] (replicate 100 1 @ replicate 100 2)
       = Some (Inr ([([], 1), ([], 2), ([], 3)], replicate 100 1 @ replicate 100 2 @ replicate 37 3))"
proof -
  let ?pg = "\<lparr> totalCount = 237, page_items = replicate 37 (3::nat) \<rparr>"
  let ?lpg = "\<lparr> resp_items = replicate 37 (3::nat), resp_cursor = [], resp_hasMore = False \<rparr>"
  have f: "three_pages 200 = Inr ?pg" by (simp add: three_pages_def)
  have n: "page_items ?pg \<noteq> []" by simp
  have t: "200 + length (page_items ?pg) \<ge> totalCount ?pg" by simp
  have lf: "three_lead_pages [] 3 = Inr ?lpg" by (simp add: three_lead_pages_def)
  have l1: "resp_cursor ?lpg = []" "\<not> resp_hasMore ?lpg" "int (length (resp_items ?lpg)) \<noteq> 100"
    by simp_all
  note T = pagination_stops [of three_pages 200 ?pg 3 2
      "[(0, replicate 100 1), (100, replicate 100 2), (200, replicate 37 3)]"
      three_lead_pages "[]" 3 ?lpg 100 "[([], 1), ([], 2)]" "replicate 100 1 @ replicate 100 2"]
  from T f n t have a: "inbox_pages three_pages 3 2 200 = Inr [(200, page_items ?pg)]" by blast
  have T3: "(3::int) \<le> 3" by simp
  note T' = pagination_stops [of three_pages 0 ?pg 3 0
      "[(0, replicate 100 1), (100, replicate 100 2), (200, replicate 37 3)]"
      three_lead_pages "[]" 3 ?lpg 100 "[([], 1), ([], 2)]" "replicate 100 1 @ replicate 100 2"]
  from T' T3 have b: "inbox_pages three_pages 3 0 0
       = Inr [(0, replicate 100 1), (100, replicate 100 2), (200, replicate 37 3)]" by blast
  from T' b have c: "1 \<le> length [(0::nat, replicate 100 (1::nat)), (100, replicate 100 2), (200, replicate 37 3)]
    \<and> int (length [(0::nat, replicate 100 (1::nat)), (100, replicate 100 2), (200, replicate 37 3)])
        \<le> max 1 (3 - int 0)" by blast
  from T lf l1 have d: "page_loop three_lead_pages 100 [] 3 [([], 1), ([], 2)] (replicate 100 1 @ replicate 100 2)
       = Some (Inr ([([], 1), ([], 2)] @ [([], 3)], (replicate 100 1 @ replicate 100 2) @ resp_items ?lpg))"
    by blast
  from f n t a T3 b c lf d show ?thesis by simp
qed

section \<open>The messages sent to the Sink\<close>

lemma store_grows_refl [simp]: "store_grows s s"
  by (simp add: store_grows_def)




lemma id_by_url_load_object_ids [simp]: "id_by_url (load_object_ids xs w) = id_by_url w"
  by (induction xs w rule: load_object_ids.induct) (auto simp: Let_def)













lemma mv_message_uid_message_vals [simp]:
  "mv_message_uid (message_vals thread pid m) = message_uid thread m"
  by (simp add: message_vals_def)






lemma sends_only_refl [simp]: "sends_only P w w"
  by (simp add: sends_only_def)






















section \<open>Failures and the report\<close>

lemma fetch_lists_returns:
  "\<forall>l \<in> set listIds. fetchLeads (Some l) \<noteq> None \<Longrightarrow> \<exists>r. fetch_lists fetchLeads listIds acc = Some r"
proof (induction listIds arbitrary: acc)
  case Nil
  then show ?case by simp
next
  case (Cons l ls)
  then obtain x where x: "fetchLeads (Some l) = Some x" by auto
  from Cons have ih: "\<And>acc. \<exists>r. fetch_lists fetchLeads ls acc = Some r" by simp
  show ?case
  proof (cases x)
    case (Inl e)
    with x ih show ?thesis by simp
  next
    case (Inr leads)
    with x ih show ?thesis by simp
  qed
qed

lemma fetch_lists_errors:
  "fetch_lists fetchLeads listIds acc = Some r \<Longrightarrow>
     set (snd acc) \<subseteq> set (snd r)
     \<and> (\<forall>l \<in> set listIds. \<forall>e. fetchLeads (Some l) = Some (Inl e) \<longrightarrow> list_error l e \<in> set (snd r))"
proof (induction listIds arbitrary: acc)
  case Nil
  then show ?case by simp
next
  case (Cons l ls)
  from Cons.prems obtain x where x: "fetchLeads (Some l) = Some x"
    by (cases "fetchLeads (Some l)") simp_all
  show ?case
  proof (cases x)
    case (Inl e)
    with x Cons.prems
    have "fetch_lists fetchLeads ls (fst acc, snd acc @ [list_error l e]) = Some r"
      by (simp add: list_error_def)
    from Cons.IH [OF this] x Inl show ?thesis by auto
  next
    case (Inr leads)
    with x Cons.prems
    have "fetch_lists fetchLeads ls (collect_leads leads (fst acc), snd acc) = Some r" by simp
    from Cons.IH [OF this] x Inr show ?thesis by auto
  qed
qed

lemma collect_unique_leads_returns:
  assumes "\<forall>l. fetchLeads l \<noteq> None"
  shows "\<exists>r. collect_unique_leads cfg fetchLeads = Some r"
proof (cases "LIST_IDS cfg = []")
  case True
  from assms have "fetchLeads None \<noteq> None" by blast
  then obtain x where "fetchLeads None = Some x" by blast
  with True show ?thesis
    by (cases x) (simp_all add: collect_unique_leads_def fetch_all_leads_def)
next
  case False
  from assms have "\<forall>l \<in> set (LIST_IDS cfg). fetchLeads (Some l) \<noteq> None" by blast
  from fetch_lists_returns [OF this, of "([], [])"] False show ?thesis
    by (simp add: collect_unique_leads_def)
qed

lemma collect_unique_leads_errors:
  assumes "collect_unique_leads cfg fetchLeads = Some r"
  shows "(\<forall>l \<in> set (LIST_IDS cfg). \<forall>e. fetchLeads (Some l) = Some (Inl e)
            \<longrightarrow> list_error l e \<in> set (snd r))
         \<and> (LIST_IDS cfg = [] \<longrightarrow> (\<forall>e. fetchLeads None = Some (Inl e) \<longrightarrow> leads_error e \<in> set (snd r)))"
proof (cases "LIST_IDS cfg = []")
  case True
  with assms show ?thesis
    by (auto simp: collect_unique_leads_def fetch_all_leads_def leads_error_def
        split: option.splits sum.splits)
next
  case False
  with assms have "fetch_lists fetchLeads (LIST_IDS cfg) ([], []) = Some r"
    by (simp add: collect_unique_leads_def)
  from fetch_lists_errors [OF this] False show ?thesis by simp
qed

lemma fetch_conversations_returns:
  "\<forall>l. fetchConvs l \<noteq> None \<Longrightarrow> \<exists>r. fetch_conversations P fetchConvs leads acc = Some r"
proof (induction leads arbitrary: acc)
  case Nil
  then show ?case by simp
next
  case (Cons ld lds)
  from Cons.prems have "fetchConvs (lead_key ld) \<noteq> None" by blast
  then obtain x where x: "fetchConvs (lead_key ld) = Some x" by blast
  from Cons have ih: "\<And>acc. \<exists>r. fetch_conversations P fetchConvs lds acc = Some r" by simp
  show ?case
  proof (cases x)
    case (Inl e)
    with x ih [of acc] ih [of "(fst acc, snd acc @ [conversations_error (lead_key ld) e])"]
    show ?thesis by (simp add: conversations_error_def)
  next
    case (Inr conv)
    with x ih [of acc]
      ih [of "(fst acc @ map (\<lambda>m. (lead_key ld, lead_liUrl P ld, m)) conv, snd acc)"]
    show ?thesis by simp
  qed
qed

lemma fetch_conversations_result:
  "fetch_conversations P fetchConvs leads acc = Some r \<Longrightarrow>
     fst r = fst acc @ concat (map (rows_of_lead P fetchConvs) leads)
     \<and> set (snd acc) \<subseteq> set (snd r)
     \<and> (\<forall>ld \<in> set leads. \<forall>e. lead_key ld \<noteq> [] \<longrightarrow> lead_liUrl P ld \<noteq> []
           \<longrightarrow> fetchConvs (lead_key ld) = Some (Inl e)
           \<longrightarrow> conversations_error (lead_key ld) e \<in> set (snd r))"
proof (induction leads arbitrary: acc)
  case Nil
  then show ?case by simp
next
  case (Cons ld lds)
  show ?case
  proof (cases "lead_key ld = [] \<or> lead_liUrl P ld = []")
    case True
    with Cons.prems have "fetch_conversations P fetchConvs lds acc = Some r"
      by (auto split: if_splits)
    from Cons.IH [OF this] True show ?thesis by (auto simp: rows_of_lead_def)
  next
    case False
    with Cons.prems obtain x where x: "fetchConvs (lead_key ld) = Some x"
      by (cases "fetchConvs (lead_key ld)") simp_all
    show ?thesis
    proof (cases x)
      case (Inl e)
      with x False Cons.prems
      have "fetch_conversations P fetchConvs lds
              (fst acc, snd acc @ [conversations_error (lead_key ld) e]) = Some r"
        by (simp add: conversations_error_def)
      from Cons.IH [OF this] x Inl False show ?thesis by (auto simp: rows_of_lead_def)
    next
      case (Inr conv)
      with x False Cons.prems
      have "fetch_conversations P fetchConvs lds
              (fst acc @ map (\<lambda>m. (lead_key ld, lead_liUrl P ld, m)) conv, snd acc) = Some r"
        by simp
      from Cons.IH [OF this] x Inr False show ?thesis by (auto simp: rows_of_lead_def)
    qed
  qed
qed

lemma per_lead_flow_returns:
  assumes "\<forall>l. fetchLeads l \<noteq> None" and "\<forall>k. fetchConvs k \<noteq> None"
  shows "\<exists>r. per_lead_flow P cfg fetchLeads fetchConvs = Some r"
proof -
  from collect_unique_leads_returns [OF assms(1), of cfg]
  obtain uniq errs1 where c: "collect_unique_leads cfg fetchLeads = Some (uniq, errs1)" by auto
  from fetch_conversations_returns [OF assms(2), of P "leadsArray cfg uniq" "([], errs1)"]
  obtain rows errs where "fetch_conversations P fetchConvs (leadsArray cfg uniq) ([], errs1)
      = Some (rows, errs)" by auto
  with c show ?thesis by (simp add: per_lead_flow_def Let_def)
qed

lemma per_lead_flow_report:
  assumes r: "per_lead_flow P cfg fetchLeads fetchConvs = Some r"
    and c: "collect_unique_leads cfg fetchLeads = Some (uniq, errs1)"
  shows "set errs1 \<subseteq> set (rp_errors r)
    \<and> (\<forall>ld \<in> set (leadsArray cfg uniq). \<forall>e. lead_key ld \<noteq> [] \<longrightarrow> lead_liUrl P ld \<noteq> []
           \<longrightarrow> fetchConvs (lead_key ld) = Some (Inl e)
           \<longrightarrow> conversations_error (lead_key ld) e \<in> set (rp_errors r))
    \<and> rp_messageRows r = length (concat (map (rows_of_lead P fetchConvs) (leadsArray cfg uniq)))"
proof -
  from r c obtain rows errs where
    f: "fetch_conversations P fetchConvs (leadsArray cfg uniq) ([], errs1) = Some (rows, errs)"
    and rr: "rp_errors r = errs" "rp_messageRows r = length rows"
    by (auto simp: per_lead_flow_def Let_def split: option.splits)
  from fetch_conversations_result [OF f] rr show ?thesis by simp
qed

lemma inbox_flow_errors:
  "inbox_flow P cfg at src sink now ss w = Inr res \<Longrightarrow> rp_errors (ir_report res) = []"
  by (auto simp: inbox_flow_def Let_def split: sum.splits)

lemma inbox_flow_returns:
  "inbox_extraction src cfg = Inr convs \<Longrightarrow> \<exists>res. inbox_flow P cfg at src sink now ss w = Inr res"
  by (simp add: inbox_flow_def Let_def)

lemma upsert_row_query_failed:
  assumes "linkedin_url row \<noteq> []" and "map_of (record_cache w) (linkedin_url row) = None"
    and "failed (fst (sink (sink_state w) (QueryPerson (linkedin_url row))))"
  shows "sent (snd (upsert_person_row sink row w))
           = sent w @ [QueryPerson (linkedin_url row), CreatePerson (directValues row)]"
proof -
  let ?u = "linkedin_url row"
  obtain resp s' where S: "sink (sink_state w) (QueryPerson ?u) = (resp, s')"
    by (cases "sink (sink_state w) (QueryPerson ?u)")
  let ?w1 = "w\<lparr> sink_state := s', sent := sent w @ [QueryPerson ?u] \<rparr>"
  from assms S have F: "findPersonByLinkedInUrl sink ?u w = (None, ?w1)"
    by (auto simp: findPersonByLinkedInUrl_def call_def failed_def split: response.splits)
  obtain resp2 s2 where C: "sink s' (CreatePerson (directValues row)) = (resp2, s2)"
    by (cases "sink s' (CreatePerson (directValues row))")
  show ?thesis
    using F C
    by (auto simp: upsert_person_row_def call_def
        split: response.splits resp_body.splits option.splits)
qed

lemma length_upsert_person_rows:
  "length (fst (fst (upsert_person_rows sink rows w))) = length rows"
proof (induction rows arbitrary: w)
  case Nil
  then show ?case by simp
next
  case (Cons row rows)
  obtain out counted w1 where R1: "upsert_person_row sink row w = ((out, counted), w1)"
    by (metis prod.exhaust)
  obtain outs ok w2 where R2: "upsert_person_rows sink rows w1 = ((outs, ok), w2)"
    by (metis prod.exhaust)
  from Cons.IH [of w1] R2 have "length outs = length rows" by simp
  with R1 R2 show ?case by simp
qed

lemma attioUpsertPeople_every_row:
  assumes "people_records_endpoint at" "\<not> AT_DRY_RUN at"
    and "fst (ensureAttioObjectIdsLoaded sink w) = None"
  shows "length (fst (snd (attioUpsertPeople at sink rows w))) = length rows"
proof -
  obtain w1 where L: "ensureAttioObjectIdsLoaded sink w = (None, w1)"
    using assms(3) by (cases "ensureAttioObjectIdsLoaded sink w") simp
  obtain outs ok w2 where U: "upsert_person_rows sink rows w1 = ((outs, ok), w2)"
    by (metis prod.exhaust)
  from length_upsert_person_rows [of sink rows w1] U have "length outs = length rows" by simp
  with assms(1,2) L U show ?thesis
    by (simp add: attioUpsertPeople_def)
qed

lemma patch_failed_not_updated:
  assumes "chg \<noteq> []" and "fst (ensureAttioObjectIdsLoaded sink w) = None"
    and "failed (fst (sink (sink_state (snd (ensureAttioObjectIdsLoaded sink w)))
            (PatchPerson (people_object_id (snd (ensureAttioObjectIdsLoaded sink w))) rid chg)))"
  shows "\<not> updated (fst (updatePersonFields sink rid chg w))"
proof -
  obtain w1 where L: "ensureAttioObjectIdsLoaded sink w = (None, w1)"
    using assms(2) by (cases "ensureAttioObjectIdsLoaded sink w") simp
  obtain resp s' where S: "sink (sink_state w1) (PatchPerson (people_object_id w1) rid chg) = (resp, s')"
    by (cases "sink (sink_state w1) (PatchPerson (people_object_id w1) rid chg)")
  from assms(1,3) L S show ?thesis
    by (auto simp: updatePersonFields_def call_def failed_def split: response.splits)
qed

text \<open>
  C9, as stated, fails for the failures of the Sink. In the first inbox run of the
  example the patch of the person is answered with status 500 and the update fails; the
  run goes on and its report is written, with an empty error list. In the second the
  query for the person is answered with status 500: the person is not skipped, a create
  request is sent for it, and the error list of the report is empty again.
\<close>

theorem failure_report_counterexample:
  "refusing_sink () (PatchPerson [] ''rec-ann'' [(''job_title_5'', Text ''CTO'')]) = (Http 500 NoData, ())
   \<and> map_sum id ir_outcomes (inbox_flow simple_url inbox_config live_config one_conv_source
         refusing_sink ''now'' empty_sync (fresh_world ())) = Inr [UpdateFailed]
   \<and> map_sum id (\<lambda>res. filter is_patch (sent (ir_world res)))
         (inbox_flow simple_url inbox_config live_config one_conv_source
           refusing_sink ''now'' empty_sync (fresh_world ()))
       = Inr [PatchPerson [] ''rec-ann'' [(''job_title_5'', Text ''CTO'')]]
   \<and> map_option rp_errors (main simple_url inbox_config live_config one_conv_source
         refusing_sink ''now'' empty_sync (fresh_world ())) = Some []
   \<and> query_failing_sink () (QueryPerson ''https://www.linkedin.com/in/ann-lee'') = (Http 500 NoData, ())
   \<and> map_sum id ir_outcomes (inbox_flow simple_url inbox_config live_config one_conv_source
         query_failing_sink ''now'' empty_sync (fresh_world ())) = Inr [Created]
   \<and> map_sum id (\<lambda>res. take 3 (sent (ir_world res)))
         (inbox_flow simple_url inbox_config live_config one_conv_source
           query_failing_sink ''now'' empty_sync (fresh_world ()))
       = Inr [GetObjects, QueryPerson ''https://www.linkedin.com/in/ann-lee'',
              CreatePerson (directValues cto_row)]
   \<and> map_option rp_errors (main simple_url inbox_config live_config one_conv_source
         query_failing_sink ''now'' empty_sync (fresh_world ())) = Some []"
  by code_simp

text \<open>
  C9, amended. In the flow over the leads, when every fetch returns, the run returns
  its report; the failure of the fetch of a list (or of all leads, when no list is
  configured) and the failure of the fetch of the conversations of a lead are each in
  the error list of the report with stage, id and message; the lead that failed adds no
  message row, and the report counts all message rows of the other leads. A failure of
  the Sink does not abort the run either: the people upsert gives every row its outcome
  whatever the Sink answers, a patch that fails leaves the row not updated, and the inbox
  flow writes its report whenever the extraction succeeded. But such a failure is not
  reported, the error list of that report being empty; and a row whose query fails is not
  skipped: the create request for it is sent next.
\<close>

theorem failures_isolated:
  "((\<forall>l. fetchLeads l \<noteq> None) \<longrightarrow> (\<forall>k. fetchConvs k \<noteq> None)
       \<longrightarrow> (\<exists>r. per_lead_flow P cfg fetchLeads fetchConvs = Some r))
   \<and> (per_lead_flow P cfg fetchLeads fetchConvs = Some r
       \<longrightarrow> collect_unique_leads cfg fetchLeads = Some (uniq, errs1)
       \<longrightarrow> (listId \<in> set (LIST_IDS cfg) \<longrightarrow> fetchLeads (Some listId) = Some (Inl e)
              \<longrightarrow> list_error listId e \<in> set (rp_errors r))
         \<and> (LIST_IDS cfg = [] \<longrightarrow> fetchLeads None = Some (Inl e)
              \<longrightarrow> leads_error e \<in> set (rp_errors r))
         \<and> (ld \<in> set (leadsArray cfg uniq) \<longrightarrow> lead_key ld \<noteq> [] \<longrightarrow> lead_liUrl P ld \<noteq> []
              \<longrightarrow> fetchConvs (lead_key ld) = Some (Inl e')
              \<longrightarrow> conversations_error (lead_key ld) e' \<in> set (rp_errors r)
                  \<and> rows_of_lead P fetchConvs ld = [])
         \<and> rp_messageRows r
             = length (concat (map (rows_of_lead P fetchConvs) (leadsArray cfg uniq))))
   \<and> (inbox_extraction src cfg = Inr convs
       \<longrightarrow> (\<exists>res. inbox_flow P cfg at src sink now ss w = Inr res))
   \<and> (inbox_flow P cfg at src sink now ss w = Inr res \<longrightarrow> rp_errors (ir_report res) = [])
   \<and> (people_records_endpoint at \<longrightarrow> \<not> AT_DRY_RUN at
       \<longrightarrow> fst (ensureAttioObjectIdsLoaded sink w) = None
       \<longrightarrow> length (fst (snd (attioUpsertPeople at sink rows w))) = length rows)
   \<and> (linkedin_url row \<noteq> [] \<longrightarrow> map_of (record_cache w) (linkedin_url row) = None
       \<longrightarrow> failed (fst (sink (sink_state w) (QueryPerson (linkedin_url row))))
       \<longrightarrow> sent (snd (upsert_person_row sink row w))
             = sent w @ [QueryPerson (linkedin_url row), CreatePerson (directValues row)])
   \<and> (chg \<noteq> [] \<longrightarrow> fst (ensureAttioObjectIdsLoaded sink w) = None
       \<longrightarrow> failed (fst (sink (sink_state (snd (ensureAttioObjectIdsLoaded sink w)))
              (PatchPerson (people_object_id (snd (ensureAttioObjectIdsLoaded sink w))) rid chg)))
       \<longrightarrow> \<not> updated (fst (updatePersonFields sink rid chg w)))"
proof (intro conjI impI)
  assume "\<forall>l. fetchLeads l \<noteq> None" "\<forall>k. fetchConvs k \<noteq> None"
  then show "\<exists>r. per_lead_flow P cfg fetchLeads fetchConvs = Some r"
    by (rule per_lead_flow_returns)
next
  assume r: "per_lead_flow P cfg fetchLeads fetchConvs = Some r"
    and c: "collect_unique_leads cfg fetchLeads = Some (uniq, errs1)"
  note R = per_lead_flow_report [OF r c]
  note C = collect_unique_leads_errors [OF c]
  {
    assume "listId \<in> set (LIST_IDS cfg)" "fetchLeads (Some listId) = Some (Inl e)"
    with C have "list_error listId e \<in> set errs1" by simp
    with R show "list_error listId e \<in> set (rp_errors r)" by blast
  }
  {
    assume "LIST_IDS cfg = []" "fetchLeads None = Some (Inl e)"
    with C have "leads_error e \<in> set errs1" by simp
    with R show "leads_error e \<in> set (rp_errors r)" by blast
  }
  {
    assume a: "ld \<in> set (leadsArray cfg uniq)" "lead_key ld \<noteq> []" "lead_liUrl P ld \<noteq> []"
      "fetchConvs (lead_key ld) = Some (Inl e')"
    with R show "conversations_error (lead_key ld) e' \<in> set (rp_errors r)" by blast
    from a show "rows_of_lead P fetchConvs ld = []" by (simp add: rows_of_lead_def)
  }
  from R show "rp_messageRows r
             = length (concat (map (rows_of_lead P fetchConvs) (leadsArray cfg uniq)))" by simp
next
  assume "inbox_extraction src cfg = Inr convs"
  then show "\<exists>res. inbox_flow P cfg at src sink now ss w = Inr res"
    by (rule inbox_flow_returns)
next
  assume "inbox_flow P cfg at src sink now ss w = Inr res"
  then show "rp_errors (ir_report res) = []" by (rule inbox_flow_errors)
next
  assume "people_records_endpoint at" "\<not> AT_DRY_RUN at"
    "fst (ensureAttioObjectIdsLoaded sink w) = None"
  then show "length (fst (snd (attioUpsertPeople at sink rows w))) = length rows"
    by (rule attioUpsertPeople_every_row)
next
  assume "linkedin_url row \<noteq> []" "map_of (record_cache w) (linkedin_url row) = None"
    "failed (fst (sink (sink_state w) (QueryPerson (linkedin_url row))))"
  then show "sent (snd (upsert_person_row sink row w))
             = sent w @ [QueryPerson (linkedin_url row), CreatePerson (directValues row)]"
    by (rule upsert_row_query_failed)
next
  assume "chg \<noteq> []" "fst (ensureAttioObjectIdsLoaded sink w) = None"
    "failed (fst (sink (sink_state (snd (ensureAttioObjectIdsLoaded sink w)))
              (PatchPerson (people_object_id (snd (ensureAttioObjectIdsLoaded sink w))) rid chg)))"
  then show "\<not> updated (fst (updatePersonFields sink rid chg w))"
    by (rule patch_failed_not_updated)
qed

theorem failures_isolated_witness:
  "(\<forall>l. failing_leads l \<noteq> None) \<and> (\<forall>k. failing_conversations k \<noteq> None)
   \<and> per_lead_flow simple_url lists_config failing_leads failing_conversations = Some lists_report
   \<and> collect_unique_leads lists_config failing_leads
       = Some ([(''a'', lead_a), (''b'', lead_b)], [list_error ''L1'' ''Exhausted retries''])
   \<and> ''L1'' \<in> set (LIST_IDS lists_config)
   \<and> failing_leads (Some ''L1'') = Some (Inl ''Exhausted retries'')
   \<and> list_error ''L1'' ''Exhausted retries'' \<in> set (rp_errors lists_report)
   \<and> lead_a \<in> set (leadsArray lists_config [(''a'', lead_a), (''b'', lead_b)])
   \<and> lead_key lead_a \<noteq> [] \<and> lead_liUrl simple_url lead_a \<noteq> []
   \<and> failing_conversations (lead_key lead_a) = Some (Inl ''Request failed with status 500'')
   \<and> conversations_error (lead_key lead_a) ''Request failed with status 500''
        \<in> set (rp_errors lists_report)
   \<and> rows_of_lead simple_url failing_conversations lead_a = []
   \<and> rp_messageRows lists_report = 2
   \<and> inbox_extraction one_conv_source inbox_config = Inr [cto_conv]
   \<and> map_sum id (rp_errors \<circ> ir_report)
        (inbox_flow simple_url inbox_config live_config one_conv_source refusing_sink ''now''
           empty_sync (fresh_world ())) = Inr []
   \<and> people_records_endpoint live_config \<and> \<not> AT_DRY_RUN live_config
   \<and> fst (ensureAttioObjectIdsLoaded refusing_sink (fresh_world ())) = None
   \<and> length (fst (snd (attioUpsertPeople live_config refusing_sink [cto_row] (fresh_world ())))) = 1
   \<and> linkedin_url cto_row \<noteq> []
   \<and> map_of (record_cache (fresh_world ())) (linkedin_url cto_row) = None
   \<and> failed (fst (query_failing_sink (sink_state (fresh_world ()))
        (QueryPerson (linkedin_url cto_row))))
   \<and> sent (snd (upsert_person_row query_failing_sink cto_row (fresh_world ())))
       = [QueryPerson (linkedin_url cto_row), CreatePerson (directValues cto_row)]
   \<and> [(''job_title_5'', Text ''CTO'')] \<noteq> []
   \<and> failed (fst (refusing_sink
        (sink_state (snd (ensureAttioObjectIdsLoaded refusing_sink (fresh_world ()))))
        (PatchPerson (people_object_id (snd (ensureAttioObjectIdsLoaded refusing_sink (fresh_world ()))))
           ''rec-ann'' [(''job_title_5'', Text ''CTO'')])))
   \<and> \<not> updated (fst (updatePersonFields refusing_sink ''rec-ann'' [(''job_title_5'', Text ''CTO'')]
         (fresh_world ())))"
proof -
  have a1: "\<forall>l. failing_leads l \<noteq> None" by (simp add: failing_leads_def)
  have a2: "\<forall>k. failing_conversations k \<noteq> None" by (simp add: failing_conversations_def)
  have r: "per_lead_flow simple_url lists_config failing_leads failing_conversations = Some lists_report"
    by code_simp
  have c: "collect_unique_leads lists_config failing_leads
       = Some ([(''a'', lead_a), (''b'', lead_b)], [list_error ''L1'' ''Exhausted retries''])"
    by code_simp
  have l1: "''L1'' \<in> set (LIST_IDS lists_config)" by code_simp
  have l2: "failing_leads (Some ''L1'') = Some (Inl ''Exhausted retries'')" by code_simp
  have d1: "lead_a \<in> set (leadsArray lists_config [(''a'', lead_a), (''b'', lead_b)])" by code_simp
  have d2: "lead_key lead_a \<noteq> []" by code_simp
  have d3: "lead_liUrl simple_url lead_a \<noteq> []" by code_simp
  have d4: "failing_conversations (lead_key lead_a) = Some (Inl ''Request failed with status 500'')"
    by code_simp
  have m: "rp_messageRows lists_report = 2" by (simp add: lists_report_def)
  have x: "inbox_extraction one_conv_source inbox_config = Inr [cto_conv]" by code_simp
  have k1: "people_records_endpoint live_config" "\<not> AT_DRY_RUN live_config"
    by (simp_all add: live_config_def)
  have k2: "fst (ensureAttioObjectIdsLoaded refusing_sink (fresh_world ())) = None" by code_simp
  have q1: "linkedin_url cto_row \<noteq> []" by code_simp
  have q2: "map_of (record_cache (fresh_world ())) (linkedin_url cto_row) = None"
    by (simp add: fresh_world_def)
  have q3: "failed (fst (query_failing_sink (sink_state (fresh_world ()))
        (QueryPerson (linkedin_url cto_row))))" by code_simp
  have s0: "sent (fresh_world ()) = []" by (simp add: fresh_world_def)
  have f1: "[(''job_title_5'', Text ''CTO'')] \<noteq> []" by simp
  have f2: "failed (fst (refusing_sink
        (sink_state (snd (ensureAttioObjectIdsLoaded refusing_sink (fresh_world ()))))
        (PatchPerson (people_object_id (snd (ensureAttioObjectIdsLoaded refusing_sink (fresh_world ()))))
           ''rec-ann'' [(''job_title_5'', Text ''CTO'')])))" by code_simp
  note T = failures_isolated [of failing_leads failing_conversations simple_url lists_config
      lists_report "[(''a'', lead_a), (''b'', lead_b)]" "[list_error ''L1'' ''Exhausted retries'']"
      "''L1''" "''Exhausted retries''" lead_a "''Request failed with status 500''"]
  from T r c l1 l2 have e1: "list_error ''L1'' ''Exhausted retries'' \<in> set (rp_errors lists_report)"
    by blast
  from T r c d1 d2 d3 d4
  have e2: "conversations_error (lead_key lead_a) ''Request failed with status 500''
        \<in> set (rp_errors lists_report)"
    and e3: "rows_of_lead simple_url failing_conversations lead_a = []"
    by blast+
  note U = failures_isolated [where P = simple_url and cfg = inbox_config
      and src = one_conv_source and convs = "[cto_conv]" and at = live_config
      and sink = refusing_sink and now = "''now''" and ss = empty_sync and w = "fresh_world ()"
      and rows = "[cto_row]" and chg = "[(''job_title_5'', Text ''CTO'')]" and rid = "''rec-ann''"]
  from U x obtain res where res: "inbox_flow simple_url inbox_config live_config one_conv_source
      refusing_sink ''now'' empty_sync (fresh_world ()) = Inr res" by blast
  from U [where res = res] res
  have "rp_errors (ir_report res) = []" by blast
  with res have e4: "map_sum id (rp_errors \<circ> ir_report)
        (inbox_flow simple_url inbox_config live_config one_conv_source refusing_sink ''now''
           empty_sync (fresh_world ())) = Inr []" by simp
  from U k1 k2
  have "length (fst (snd (attioUpsertPeople live_config refusing_sink [cto_row] (fresh_world ()))))
          = length [cto_row]" by blast
  then have e5: "length (fst (snd (attioUpsertPeople live_config refusing_sink [cto_row]
      (fresh_world ())))) = 1" by simp
  from U f1 k2 f2
  have e7: "\<not> updated (fst (updatePersonFields refusing_sink ''rec-ann''
      [(''job_title_5'', Text ''CTO'')] (fresh_world ())))" by blast
  note V = failures_isolated [where sink = query_failing_sink and w = "fresh_world ()"
      and row = cto_row]
  from V q1 q2 q3
  have "sent (snd (upsert_person_row query_failing_sink cto_row (fresh_world ())))
       = sent (fresh_world ()) @ [QueryPerson (linkedin_url cto_row), CreatePerson (directValues cto_row)]"
    by blast
  with s0 have e6: "sent (snd (upsert_person_row query_failing_sink cto_row (fresh_world ())))
       = [QueryPerson (linkedin_url cto_row), CreatePerson (directValues cto_row)]" by simp
  show ?thesis
    by (intro conjI) (rule a1 a2 r c l1 l2 e1 d1 d2 d3 d4 e2 e3 m x e4 k1 k2 e5 q1 q2 q3 e6 f1 f2 e7)+
qed

end
